theory Spec2Isabelle
  imports Complex_Main
begin

section \<open>Data model\<close>

text \<open>
  The node under study is \<^verbatim>\<open>src/nodes/GoogleSearchConsole/GoogleSearchConsole.node.ts\<close>.
  A \<^verbatim>\<open>GscQueryRow\<close> carries an optional array of dimension values and four numeric
  metrics. JavaScript numbers are modelled as exact reals: the rounding of IEEE
  doubles is outside this development.
\<close>

record GscQueryRow =
  keys :: "string list option"
  clicks :: real
  impressions :: real
  ctr :: real
  position :: real

text \<open>Everything the code can throw.\<close>

datatype error =
    TransportError string
  | RangeError string
  | NodeOperationError string

text \<open>
  The request body handed to \<^verbatim>\<open>fetchAllRows\<close>. It is an open object in the source;
  the fields the node ever puts there are listed, \<^verbatim>\<open>rowLimit\<close> being optional
  (the comparison operation leaves it out).
\<close>

type_synonym filter_group = "string \<times> (string \<times> string \<times> string) list"

record body =
  dimensionFilterGroups :: "filter_group list option"
  body_startDate :: string
  body_endDate :: string
  dimensions :: "string list"
  rowLimit :: "int option"
  searchType :: string

text \<open>
  One page request: the site, the constant body, and the two fields the loop
  overrides on every iteration (\<^verbatim>\<open>{ ...body, rowLimit: perRequest, startRow }\<close>).
\<close>

record request =
  req_site :: string
  req_body :: body
  req_rowLimit :: int
  req_startRow :: nat

text \<open>
  The remote endpoint is an external, stateful system: given its current state and
  a request it either fails or answers, and moves to a new state. The answer is the
  \<^verbatim>\<open>rows\<close> field when it is an array, \<open>None\<close> otherwise
  (\<^verbatim>\<open>Array.isArray(resp?.rows) ? resp.rows : []\<close>).
\<close>

type_synonym response = "GscQueryRow list option"

type_synonym 's remote = "'s \<Rightarrow> request \<Rightarrow> (error + response) \<times> 's"

section \<open>Paginated fetcher\<close>

text \<open>\<^verbatim>\<open>Math.max(100, Math.min(body.rowLimit ?? 1000, 25000))\<close>\<close>

definition perRequest :: "body \<Rightarrow> int" where
  "perRequest b = max 100 (min (case rowLimit b of Some n \<Rightarrow> n | None \<Rightarrow> 1000) 25000)"

text \<open>
  \<^verbatim>\<open>rows.slice(0, end)\<close> for an integral \<open>end\<close>: a negative end counts from the
  back of the array.
\<close>

definition slice0 :: "'a list \<Rightarrow> int \<Rightarrow> 'a list" where
  "slice0 xs e = (if e < 0 then take (nat (int (length xs) + e)) xs else take (nat e) xs)"

definition chunk_of :: "response \<Rightarrow> GscQueryRow list" where
  "chunk_of resp = (case resp of Some rs \<Rightarrow> rs | None \<Rightarrow> [])"

text \<open>
  The \<^verbatim>\<open>while\<close> loop of \<^verbatim>\<open>fetchAllRows\<close>, with the local variables \<open>rows\<close> and
  \<open>startRow\<close> as arguments. A rejected request leaves the loop at once with the error.
\<close>

function fetch_loop ::
  "'s remote \<Rightarrow> string \<Rightarrow> body \<Rightarrow> int \<Rightarrow> int \<Rightarrow> GscQueryRow list \<Rightarrow> nat \<Rightarrow> 's
    \<Rightarrow> (error + GscQueryRow list) \<times> 's" where
  "fetch_loop remote siteUrl b targetLimit per rows startRow s =
    (if int (length rows) < targetLimit then
       (case remote s \<lparr>req_site = siteUrl, req_body = b, req_rowLimit = per, req_startRow = startRow\<rparr> of
          (Inl e, s') \<Rightarrow> (Inl e, s')
        | (Inr resp, s') \<Rightarrow>
            (if length (chunk_of resp) = 0 then (Inr rows, s')
             else if int (length (chunk_of resp)) < per then (Inr (rows @ chunk_of resp), s')
             else if int (length (rows @ chunk_of resp)) \<ge> targetLimit then (Inr (rows @ chunk_of resp), s')
             else fetch_loop remote siteUrl b targetLimit per (rows @ chunk_of resp)
                    (startRow + length (chunk_of resp)) s'))
     else (Inr rows, s))"
  by pat_completeness auto
termination
  by (relation "measure (\<lambda>(remote, siteUrl, b, targetLimit, per, rows, startRow, s).
                  nat (targetLimit - int (length rows)))") auto

declare fetch_loop.simps [simp del]

definition fetchAllRows ::
  "'s remote \<Rightarrow> string \<Rightarrow> body \<Rightarrow> int \<Rightarrow> 's \<Rightarrow> (error + GscQueryRow list) \<times> 's" where
  "fetchAllRows remote siteUrl b targetLimit s =
    (case fetch_loop remote siteUrl b targetLimit (perRequest b) [] 0 s of
       (Inl e, s') \<Rightarrow> (Inl e, s')
     | (Inr rows, s') \<Rightarrow> (Inr (slice0 rows targetLimit), s'))"

text \<open>
  An observer around a remote: it keeps the list of the requests made so far with
  the answer each one got. The fetcher cannot tell it from the remote it wraps.
\<close>

definition recording :: "'s remote \<Rightarrow> ((request \<times> (error + response)) list \<times> 's) remote" where
  "recording remote = (\<lambda>(log, s) req.
     (case remote s req of (r, s') \<Rightarrow> (r, (log @ [(req, r)], s'))))"

text \<open>
  A mock source for tests: a fixed list of rows, served from the requested offset,
  a page holding at most the requested number of rows and at most \<open>cap\<close> rows.
\<close>

definition mock_source :: "GscQueryRow list \<Rightarrow> nat \<Rightarrow> unit remote" where
  "mock_source src cap = (\<lambda>u req.
     (Inr (Some (take (min (nat (req_rowLimit req)) cap) (drop (req_startRow req) src))), u))"


section \<open>The JavaScript \<^verbatim>\<open>Date\<close> built-ins\<close>

text \<open>
  The date helpers of the node rest on \<^verbatim>\<open>Date\<close>. Its time values are integral numbers of
  milliseconds since 1970-01-01 UTC, here \<open>int\<close> (a double holds every integer of the
  valid range exactly); \<open>NaN\<close>, the time value of an invalid date, is \<open>None\<close>. The
  definitions follow the abstract operations of the ECMAScript specification and work
  on day numbers where the specification works on time values.
\<close>

definition msPerDay :: int where
  "msPerDay = 86400000"

definition Day :: "int \<Rightarrow> int" where
  "Day t = t div msPerDay"

definition TimeWithinDay :: "int \<Rightarrow> int" where
  "TimeWithinDay t = t mod msPerDay"

definition DayFromYear :: "int \<Rightarrow> int" where
  "DayFromYear y = 365 * (y - 1970) + (y - 1969) div 4 - (y - 1901) div 100 + (y - 1601) div 400"

definition InLeapYear :: "int \<Rightarrow> bool" where
  "InLeapYear y = (y mod 4 = 0 \<and> (y mod 100 \<noteq> 0 \<or> y mod 400 = 0))"

text \<open>
  The year of a day number: the largest \<open>y\<close> with \<open>DayFromYear y \<le> d\<close>, found from
  the mean length of a year and corrected by one either way (\<open>YearFromDay_bounds\<close> and
  \<open>YearFromDay_unique\<close> below show that this is that year).
\<close>

definition YearFromDay :: "int \<Rightarrow> int" where
  "YearFromDay d =
    (let y = 1970 + (400 * d) div 146097
     in if DayFromYear (y + 1) \<le> d then y + 1
        else if DayFromYear y \<le> d then y
        else y - 1)"

definition DayWithinYear :: "int \<Rightarrow> int" where
  "DayWithinYear d = d - DayFromYear (YearFromDay d)"

definition leapDays :: "int \<Rightarrow> int" where
  "leapDays y = (if InLeapYear y then 1 else 0)"

text \<open>The days of year \<open>y\<close> before its month \<open>m\<close>, months counted from 0.\<close>

definition monthStart :: "int \<Rightarrow> int \<Rightarrow> int" where
  "monthStart y m =
    (if m = 0 then 0 else if m = 1 then 31
     else leapDays y +
       (if m = 2 then 59 else if m = 3 then 90 else if m = 4 then 120 else if m = 5 then 151
        else if m = 6 then 181 else if m = 7 then 212 else if m = 8 then 243
        else if m = 9 then 273 else if m = 10 then 304 else 334))"

definition MonthFromDay :: "int \<Rightarrow> int" where
  "MonthFromDay d =
    (let dy = DayWithinYear d; l = leapDays (YearFromDay d)
     in if dy < 31 then 0 else if dy < 59 + l then 1 else if dy < 90 + l then 2
        else if dy < 120 + l then 3 else if dy < 151 + l then 4 else if dy < 181 + l then 5
        else if dy < 212 + l then 6 else if dy < 243 + l then 7 else if dy < 273 + l then 8
        else if dy < 304 + l then 9 else if dy < 334 + l then 10 else 11)"

definition DateFromDay :: "int \<Rightarrow> int" where
  "DateFromDay d = DayWithinYear d - monthStart (YearFromDay d) (MonthFromDay d) + 1"

text \<open>
  \<open>MakeDay\<close> takes any month and any date: months beyond 0..11 carry into the year,
  dates beyond the month run on into the neighbouring months.
\<close>

definition MakeDay :: "int \<Rightarrow> int \<Rightarrow> int \<Rightarrow> int" where
  "MakeDay year month date =
    DayFromYear (year + month div 12) + monthStart (year + month div 12) (month mod 12) + date - 1"

definition MakeTime :: "int \<Rightarrow> int \<Rightarrow> int \<Rightarrow> int \<Rightarrow> int" where
  "MakeTime h m s ms = h * 3600000 + m * 60000 + s * 1000 + ms"

definition MakeDate :: "int \<Rightarrow> int \<Rightarrow> int" where
  "MakeDate day time = day * msPerDay + time"

definition TimeClip :: "int \<Rightarrow> int option" where
  "TimeClip t = (if \<bar>t\<bar> > 8640000000000000 then None else Some t)"

text \<open>A time value further than 100 000 000 days from the epoch is not a date.\<close>

definition valid_time :: "int \<Rightarrow> bool" where
  "valid_time t = (\<bar>t\<bar> \<le> 8640000000000000)"

text \<open>\<^verbatim>\<open>Date.UTC\<close> reads the years 0 to 99 as 1900 to 1999.\<close>

definition MakeFullYear :: "int \<Rightarrow> int" where
  "MakeFullYear y = (if 0 \<le> y \<and> y \<le> 99 then 1900 + y else y)"

subsection \<open>Digits\<close>

definition digit :: "nat \<Rightarrow> char" where
  "digit d = ''0123456789'' ! (d mod 10)"

definition digit_val :: "char \<Rightarrow> nat option" where
  "digit_val c = (let n = (of_char c :: nat) in if 48 \<le> n \<and> n \<le> 57 then Some (n - 48) else None)"

fun read_digits :: "nat \<Rightarrow> string \<Rightarrow> nat option" where
  "read_digits acc [] = Some acc"
| "read_digits acc (c # cs) =
    (case digit_val c of None \<Rightarrow> None | Some d \<Rightarrow> read_digits (10 * acc + d) cs)"

definition pad2 :: "nat \<Rightarrow> string" where
  "pad2 n = [digit (n div 10), digit n]"

definition pad3 :: "nat \<Rightarrow> string" where
  "pad3 n = [digit (n div 100), digit (n div 10), digit n]"

definition pad4 :: "nat \<Rightarrow> string" where
  "pad4 n = [digit (n div 1000), digit (n div 100), digit (n div 10), digit n]"

definition pad6 :: "nat \<Rightarrow> string" where
  "pad6 n = [digit (n div 100000), digit (n div 10000), digit (n div 1000),
             digit (n div 100), digit (n div 10), digit n]"

subsection \<open>ISO strings\<close>

text \<open>
  \<^verbatim>\<open>toISOString\<close>: \<^verbatim>\<open>YYYY-MM-DDTHH:mm:ss.sssZ\<close>, with a sign and six digits for years
  outside 0..9999.
\<close>

definition year_str :: "int \<Rightarrow> string" where
  "year_str y = (if 0 \<le> y \<and> y \<le> 9999 then pad4 (nat y)
                 else (if y < 0 then ''-'' else ''+'') @ pad6 (nat \<bar>y\<bar>))"

definition iso_date :: "int \<Rightarrow> string" where
  "iso_date d = year_str (YearFromDay d) @ ''-'' @ pad2 (nat (MonthFromDay d + 1))
                 @ ''-'' @ pad2 (nat (DateFromDay d))"

definition iso_time :: "int \<Rightarrow> string" where
  "iso_time w = pad2 (nat (w div 3600000)) @ '':'' @ pad2 (nat (w div 60000 mod 60))
                 @ '':'' @ pad2 (nat (w div 1000 mod 60)) @ ''.'' @ pad3 (nat (w mod 1000))"

definition iso_string :: "int \<Rightarrow> string" where
  "iso_string t = iso_date (Day t) @ ''T'' @ iso_time (TimeWithinDay t) @ ''Z''"

text \<open>
  The part of \<^verbatim>\<open>Date.parse\<close> that is modelled: the date-only form \<^verbatim>\<open>YYYY-MM-DD\<close>, read
  as a UTC midnight, and the form \<^verbatim>\<open>toISOString\<close> writes, both also with the signed
  six-digit year. Like V8 the parser takes days 1 to 31 in any month. Every other string
  is left to \<open>legacy_parse\<close> of the environment below.
\<close>

definition parse_year :: "string \<Rightarrow> (int \<times> string) option" where
  "parse_year s =
    (if s \<noteq> [] \<and> (hd s = CHR ''+'' \<or> hd s = CHR ''-'') then
       (if length s < 7 then None
        else case read_digits 0 (take 6 (tl s)) of
               None \<Rightarrow> None
             | Some y \<Rightarrow> if hd s = CHR ''-'' then (if y = 0 then None else Some (- int y, drop 7 s))
                         else Some (int y, drop 7 s))
     else if length s < 4 then None
     else map_option (\<lambda>y. (int y, drop 4 s)) (read_digits 0 (take 4 s)))"

definition parse_month_day :: "string \<Rightarrow> (int \<times> int \<times> string) option" where
  "parse_month_day s =
    (if length s < 6 \<or> s ! 0 \<noteq> CHR ''-'' \<or> s ! 3 \<noteq> CHR ''-'' then None
     else case (read_digits 0 (take 2 (drop 1 s)), read_digits 0 (take 2 (drop 4 s))) of
            (Some m, Some d) \<Rightarrow>
              if 1 \<le> m \<and> m \<le> 12 \<and> 1 \<le> d \<and> d \<le> 31 then Some (int m, int d, drop 6 s) else None
          | _ \<Rightarrow> None)"

definition parse_time :: "string \<Rightarrow> int option" where
  "parse_time s =
    (if s = [] then Some 0
     else if length s \<noteq> 14 \<or> s ! 0 \<noteq> CHR ''T'' \<or> s ! 3 \<noteq> CHR '':'' \<or> s ! 6 \<noteq> CHR '':''
             \<or> s ! 9 \<noteq> CHR ''.'' \<or> s ! 13 \<noteq> CHR ''Z'' then None
     else case (read_digits 0 (take 2 (drop 1 s)), read_digits 0 (take 2 (drop 4 s)),
                read_digits 0 (take 2 (drop 7 s)), read_digits 0 (take 3 (drop 10 s))) of
            (Some h, Some m, Some sec, Some ms) \<Rightarrow>
              if h \<le> 23 \<and> m \<le> 59 \<and> sec \<le> 59 then Some (MakeTime (int h) (int m) (int sec) (int ms))
              else None
          | _ \<Rightarrow> None)"

definition parse_iso :: "string \<Rightarrow> int option" where
  "parse_iso s =
    (case parse_year s of
       None \<Rightarrow> None
     | Some (y, r) \<Rightarrow>
         (case parse_month_day r of
            None \<Rightarrow> None
          | Some (m, d, r') \<Rightarrow>
              (case parse_time r' of
                 None \<Rightarrow> None
               | Some w \<Rightarrow> Some (MakeDate (MakeDay y (m - 1) d) w))))"

definition DaysInMonth :: "int \<Rightarrow> int \<Rightarrow> int" where
  "DaysInMonth y m =
    (if m = 1 then 28 + leapDays y
     else if m = 3 \<or> m = 5 \<or> m = 8 \<or> m = 10 then 30 else 31)"


text \<open>
  What the code takes from its host: the clock read by \<^verbatim>\<open>new Date()\<close>, the local time
  zone as the offset \<open>LocalTZA t isUTC\<close> of the ECMAScript specification (in
  milliseconds, for a UTC time value when \<open>isUTC\<close> holds and for a local one otherwise),
  and what the engine makes of date strings outside the modelled ISO forms.
\<close>

record env =
  now :: int
  LocalTZA :: "int \<Rightarrow> bool \<Rightarrow> int"
  legacy_parse :: "string \<Rightarrow> int option"

type_synonym jsdate = "int option"

definition LocalTime :: "env \<Rightarrow> int \<Rightarrow> int" where
  "LocalTime e t = t + LocalTZA e t True"

definition UTC :: "env \<Rightarrow> int \<Rightarrow> int" where
  "UTC e t = t - LocalTZA e t False"

text \<open>\<^verbatim>\<open>new Date(s)\<close> for a string \<open>s\<close>; the empty string is not a date.\<close>

definition date_parse :: "env \<Rightarrow> string \<Rightarrow> jsdate" where
  "date_parse e s =
    (if s = [] then None
     else case parse_iso s of
            Some t \<Rightarrow> TimeClip t
          | None \<Rightarrow> Option.bind (legacy_parse e s) TimeClip)"

definition date_now :: "env \<Rightarrow> jsdate" where
  "date_now e = TimeClip (now e)"

text \<open>
  The getters and setters the node uses work in local time. Their numeric arguments
  and results are \<open>None\<close> where JavaScript has \<open>NaN\<close>.
\<close>

definition getFullYear :: "env \<Rightarrow> jsdate \<Rightarrow> int option" where
  "getFullYear e d = map_option (\<lambda>t. YearFromDay (Day (LocalTime e t))) d"

definition getMonth :: "env \<Rightarrow> jsdate \<Rightarrow> int option" where
  "getMonth e d = map_option (\<lambda>t. MonthFromDay (Day (LocalTime e t))) d"

definition getDate :: "env \<Rightarrow> jsdate \<Rightarrow> int option" where
  "getDate e d = map_option (\<lambda>t. DateFromDay (Day (LocalTime e t))) d"

definition setDate :: "env \<Rightarrow> jsdate \<Rightarrow> int option \<Rightarrow> jsdate" where
  "setDate e d dt =
    (case (d, dt) of
       (Some t, Some n) \<Rightarrow>
         (let lt = LocalTime e t
          in TimeClip (UTC e (MakeDate (MakeDay (YearFromDay (Day lt)) (MonthFromDay (Day lt)) n)
                                (TimeWithinDay lt))))
     | _ \<Rightarrow> None)"

definition setMonth :: "env \<Rightarrow> jsdate \<Rightarrow> int option \<Rightarrow> jsdate" where
  "setMonth e d m =
    (case (d, m) of
       (Some t, Some n) \<Rightarrow>
         (let lt = LocalTime e t
          in TimeClip (UTC e (MakeDate (MakeDay (YearFromDay (Day lt)) n (DateFromDay (Day lt)))
                                (TimeWithinDay lt))))
     | _ \<Rightarrow> None)"

definition setFullYear :: "env \<Rightarrow> jsdate \<Rightarrow> int option \<Rightarrow> jsdate" where
  "setFullYear e d y =
    (case y of
       None \<Rightarrow> None
     | Some n \<Rightarrow>
         (let lt = (case d of None \<Rightarrow> 0 | Some t \<Rightarrow> LocalTime e t)
          in TimeClip (UTC e (MakeDate (MakeDay n (MonthFromDay (Day lt)) (DateFromDay (Day lt)))
                                (TimeWithinDay lt)))))"

definition Date_UTC :: "int option \<Rightarrow> int option \<Rightarrow> int option \<Rightarrow> int option" where
  "Date_UTC y m d =
    (case (y, m, d) of
       (Some y', Some m', Some d') \<Rightarrow> TimeClip (MakeDate (MakeDay (MakeFullYear y') m' d') 0)
     | _ \<Rightarrow> None)"

definition toISOString :: "jsdate \<Rightarrow> error + string" where
  "toISOString d =
    (case d of None \<Rightarrow> Inl (RangeError ''Invalid time value'') | Some t \<Rightarrow> Inr (iso_string t))"

text \<open>
  An optional string parameter is \<open>None\<close> when \<^verbatim>\<open>undefined\<close>. A condition \<^verbatim>\<open>d ? .. : ..\<close>
  tests \<open>truthy\<close>, which the empty string is not; \<^verbatim>\<open>d ?? alt\<close> evaluates \<open>alt\<close> only for
  \<^verbatim>\<open>undefined\<close>.
\<close>

definition truthy :: "string option \<Rightarrow> bool" where
  "truthy s = (case s of None \<Rightarrow> False | Some x \<Rightarrow> x \<noteq> [])"

definition split_T0 :: "string \<Rightarrow> string" where
  "split_T0 s = takeWhile (\<lambda>c. c \<noteq> CHR ''T'') s"

record date_range =
  startDate :: string
  endDate :: string

text \<open>
  \<^verbatim>\<open>toGscDate\<close>: the last line runs on a valid date only, where \<^verbatim>\<open>toISOString\<close> returns.
\<close>

definition toGscDate :: "env \<Rightarrow> string option \<Rightarrow> string" where
  "toGscDate e d =
    (if \<not> truthy d then []
     else case date_parse e (the d) of
            None \<Rightarrow> []
          | Some t \<Rightarrow> split_T0 (iso_string t))"

definition nullish_or :: "string option \<Rightarrow> (error + string) \<Rightarrow> error + string option" where
  "nullish_or s alt = (case s of Some x \<Rightarrow> Inr (Some x) | None \<Rightarrow> map_sum id Some alt)"

text \<open>
  \<^verbatim>\<open>defaultedRange\<close>. \<^verbatim>\<open>startDt.toISOString()\<close> throws a \<^verbatim>\<open>RangeError\<close> on an invalid date;
  it is evaluated only when \<open>start\<close> is \<^verbatim>\<open>undefined\<close>, and likewise for the end.
\<close>

definition defaultedRange :: "env \<Rightarrow> string option \<Rightarrow> string option \<Rightarrow> error + date_range" where
  "defaultedRange e start end' =
    (let endDt = (if truthy end' then date_parse e (the end') else date_now e);
         startDt = (if truthy start then date_parse e (the start)
                    else Option.bind (map_option (\<lambda>t. t - 28 * 86400000) endDt) TimeClip)
     in case nullish_or start (toISOString startDt) of
          Inl err \<Rightarrow> Inl err
        | Inr s \<Rightarrow>
            (case nullish_or end' (toISOString endDt) of
               Inl err \<Rightarrow> Inl err
             | Inr en \<Rightarrow> Inr \<lparr>startDate = toGscDate e s, endDate = toGscDate e en\<rparr>))"

text \<open>
  \<^verbatim>\<open>rangeFromPreset\<close>. The local \<open>start\<close> of the source is computed and never used, and
  is left out.
\<close>

definition rangeFromPreset ::
  "env \<Rightarrow> string \<Rightarrow> string option \<Rightarrow> string option \<Rightarrow> error + date_range" where
  "rangeFromPreset e mode customStart customEnd =
    (let end' = (if truthy customEnd then date_parse e (the customEnd) else date_now e)
     in if mode \<noteq> ''custom'' then
          (let s = (if mode = ''last7d'' then setDate e end' (map_option (\<lambda>n. n - 7) (getDate e end'))
                    else if mode = ''last28d'' then setDate e end' (map_option (\<lambda>n. n - 28) (getDate e end'))
                    else if mode = ''last3mo'' then setMonth e end' (map_option (\<lambda>n. n - 3) (getMonth e end'))
                    else if mode = ''last12mo'' then setMonth e end' (map_option (\<lambda>n. n - 12) (getMonth e end'))
                    else setDate e end' (map_option (\<lambda>n. n - 28) (getDate e end')))
           in case toISOString s of
                Inl err \<Rightarrow> Inl err
              | Inr ss \<Rightarrow>
                  (case toISOString end' of
                     Inl err \<Rightarrow> Inl err
                   | Inr es \<Rightarrow> Inr \<lparr>startDate = toGscDate e (Some ss), endDate = toGscDate e (Some es)\<rparr>))
        else defaultedRange e customStart customEnd)"

definition daysInclusive :: "env \<Rightarrow> string \<Rightarrow> string \<Rightarrow> int option" where
  "daysInclusive e a b =
    (let start = date_parse e a; end' = date_parse e b;
         startUTC = Date_UTC (getFullYear e start) (getMonth e start) (getDate e start);
         endUTC = Date_UTC (getFullYear e end') (getMonth e end') (getDate e end')
     in case (endUTC, startUTC) of
          (Some x, Some y) \<Rightarrow> Some ((x - y) div msPerDay + 1)
        | _ \<Rightarrow> None)"

definition shiftDays :: "env \<Rightarrow> string \<Rightarrow> int option \<Rightarrow> error + string" where
  "shiftDays e isoStr days =
    (let d = date_parse e isoStr;
         d' = setDate e d (case (getDate e d, days) of (Some x, Some k) \<Rightarrow> Some (x + k) | _ \<Rightarrow> None)
     in map_sum id (\<lambda>s. toGscDate e (Some s)) (toISOString d'))"

definition shiftYears :: "env \<Rightarrow> string \<Rightarrow> int \<Rightarrow> error + string" where
  "shiftYears e isoStr years =
    (let d = date_parse e isoStr;
         d' = setFullYear e d (map_option (\<lambda>y. y + years) (getFullYear e d))
     in map_sum id (\<lambda>s. toGscDate e (Some s)) (toISOString d'))"

record customB =
  cb_mode :: "string option"
  cb_start :: "string option"
  cb_end :: "string option"

definition buildCompareRanges ::
  "env \<Rightarrow> string \<Rightarrow> date_range \<Rightarrow> customB option \<Rightarrow> error + (date_range \<times> date_range)" where
  "buildCompareRanges e mode rangeA cb =
    (if mode = ''prevPeriod'' then
       (let dur = daysInclusive e (startDate rangeA) (endDate rangeA)
        in case shiftDays e (startDate rangeA) (Some (- 1)) of
             Inl err \<Rightarrow> Inl err
           | Inr endB \<Rightarrow>
               (case shiftDays e endB (map_option (\<lambda>n. - (n - 1)) dur) of
                  Inl err \<Rightarrow> Inl err
                | Inr startB \<Rightarrow> Inr (rangeA, \<lparr>startDate = startB, endDate = endB\<rparr>)))
     else if mode = ''prevYear'' then
       (case shiftYears e (startDate rangeA) (- 1) of
          Inl err \<Rightarrow> Inl err
        | Inr startB \<Rightarrow>
            (case shiftYears e (endDate rangeA) (- 1) of
               Inl err \<Rightarrow> Inl err
             | Inr endB \<Rightarrow> Inr (rangeA, \<lparr>startDate = startB, endDate = endB\<rparr>)))
     else
       (case rangeFromPreset e
               (case Option.bind cb cb_mode of None \<Rightarrow> ''last28d''
                | Some m \<Rightarrow> if m = [] then ''last28d'' else m)
               (Option.bind cb cb_start) (Option.bind cb cb_end) of
          Inl err \<Rightarrow> Inl err
        | Inr r \<Rightarrow> Inr (rangeA, \<lparr>startDate = startDate r, endDate = endDate r\<rparr>)))"

text \<open>
  Hosts for concrete runs: on UTC, at a fixed offset from UTC, and in New York. None of
  them parses more than the ISO forms.
\<close>

definition utc_host :: "int \<Rightarrow> env" where
  "utc_host t = \<lparr>now = t, LocalTZA = (\<lambda>t u. 0), legacy_parse = (\<lambda>s. None)\<rparr>"

definition fixed_host :: "int \<Rightarrow> int \<Rightarrow> env" where
  "fixed_host t c = \<lparr>now = t, LocalTZA = (\<lambda>t u. c), legacy_parse = (\<lambda>s. None)\<rparr>"

text \<open>New York in 2024: UTC-5, and UTC-4 from 10 March 07:00 UTC to 3 November 06:00 UTC.\<close>

definition new_york_2024 :: "int \<Rightarrow> env" where
  "new_york_2024 t = \<lparr>now = t,
     LocalTZA = (\<lambda>t isUTC.
       if isUTC then (if 1710054000000 \<le> t \<and> t < 1730613600000 then - 14400000 else - 18000000)
       else (if 1710039600000 \<le> t \<and> t < 1730599200000 then - 14400000 else - 18000000)),
     legacy_parse = (\<lambda>s. None)\<rparr>"

section \<open>Row join\<close>

text \<open>\<^verbatim>\<open>Array.prototype.join\<close> on an array of strings.\<close>

fun js_join :: "string \<Rightarrow> string list \<Rightarrow> string" where
  "js_join sep [] = []"
| "js_join sep [x] = x"
| "js_join sep (x # y # zs) = x @ sep @ js_join sep (y # zs)"

definition keys_or_empty :: "GscQueryRow \<Rightarrow> string list" where
  "keys_or_empty row = (case keys row of Some ks \<Rightarrow> ks | None \<Rightarrow> [])"

text \<open>\<^verbatim>\<open>(row.keys ?? []).join('||')\<close>; the \<open>dimensions\<close> argument is not used.\<close>

definition keyFromRow :: "string list \<Rightarrow> GscQueryRow \<Rightarrow> string" where
  "keyFromRow dims row = js_join ''||'' (keys_or_empty row)"

text \<open>
  A JavaScript \<^verbatim>\<open>Map\<close>, and the own properties of an object, keep the order in which
  keys were first set; setting a key again replaces its value in place.
\<close>

fun map_set :: "'k \<Rightarrow> 'v \<Rightarrow> ('k \<times> 'v) list \<Rightarrow> ('k \<times> 'v) list" where
  "map_set k v [] = [(k, v)]"
| "map_set k v (p # m) = (if fst p = k then (k, v) # m else p # map_set k v m)"

definition rowsToMap :: "GscQueryRow list \<Rightarrow> string list \<Rightarrow> (string \<times> GscQueryRow) list" where
  "rowsToMap rows dims = foldl (\<lambda>m r. map_set (keyFromRow dims r) r m) [] rows"

text \<open>\<^verbatim>\<open>new Set(xs)\<close>: the distinct elements in the order of their first occurrence.\<close>

definition set_add :: "'a \<Rightarrow> 'a list \<Rightarrow> 'a list" where
  "set_add x xs = (if x \<in> set xs then xs else xs @ [x])"

definition new_Set :: "'a list \<Rightarrow> 'a list" where
  "new_Set xs = foldl (\<lambda>acc x. set_add x acc) [] xs"

datatype jsval = Undefined | Str string | Num real | Obj "(string \<times> jsval) list"

type_synonym jsobj = "(string \<times> jsval) list"

definition obj_sets :: "(string \<times> jsval) list \<Rightarrow> jsobj \<Rightarrow> jsobj" where
  "obj_sets kvs obj = foldl (\<lambda>acc kv. map_set (fst kv) (snd kv) acc) obj kvs"

definition or_else :: "'a option \<Rightarrow> 'a option \<Rightarrow> 'a option" where
  "or_else a b = (case a of Some x \<Rightarrow> Some x | None \<Rightarrow> b)"

definition emptyFrom :: "string list option \<Rightarrow> GscQueryRow" where
  "emptyFrom ks = \<lparr>keys = Some (case ks of Some k \<Rightarrow> k | None \<Rightarrow> []),
                    clicks = 0, impressions = 0, ctr = 0, position = 0\<rparr>"

text \<open>
  \<^verbatim>\<open>valsA = ra ?? emptyFrom(ra?.keys ?? rb?.keys)\<close> and its mirror image for \<open>valsB\<close>.
\<close>

definition pair_vals :: "GscQueryRow option \<Rightarrow> GscQueryRow option \<Rightarrow> GscQueryRow \<times> GscQueryRow" where
  "pair_vals ra rb =
    ((case ra of Some r \<Rightarrow> r | None \<Rightarrow> emptyFrom (or_else (Option.bind ra keys) (Option.bind rb keys))),
     (case rb of Some r \<Rightarrow> r | None \<Rightarrow> emptyFrom (or_else (Option.bind rb keys) (Option.bind ra keys))))"

text \<open>\<^verbatim>\<open>dims[idx]\<close> used as a property name: an index out of range names \<^verbatim>\<open>undefined\<close>.\<close>

definition dim_name :: "string list \<Rightarrow> nat \<Rightarrow> string" where
  "dim_name dims idx = (if idx < length dims then dims ! idx else ''undefined'')"

definition range_val :: "date_range \<Rightarrow> jsval" where
  "range_val r = Obj [(''startDate'', Str (startDate r)), (''endDate'', Str (endDate r))]"

text \<open>The body of the loop over \<open>allKeys\<close>: the record \<open>out\<close> for one key.\<close>

definition compare_record ::
  "string list \<Rightarrow> GscQueryRow option \<Rightarrow> GscQueryRow option \<Rightarrow> date_range \<Rightarrow> date_range \<Rightarrow> string
    \<Rightarrow> jsobj" where
  "compare_record dims ra rb rangeA rangeB compareMode =
    (let valsA = fst (pair_vals ra rb); valsB = snd (pair_vals ra rb);
         ks = (case or_else (keys valsA) (keys valsB) of Some k \<Rightarrow> k | None \<Rightarrow> []);
         out = foldl (\<lambda>acc iv. map_set (dim_name dims (fst iv)) (Str (snd iv)) acc) []
                 (enumerate 0 ks)
     in obj_sets
          [(''clicks_a'', Num (clicks valsA)), (''clicks_b'', Num (clicks valsB)),
           (''clicks_diff'', Num (clicks valsA - clicks valsB)),
           (''impr_a'', Num (impressions valsA)), (''impr_b'', Num (impressions valsB)),
           (''impr_diff'', Num (impressions valsA - impressions valsB)),
           (''ctr_a'', Num (ctr valsA)), (''ctr_b'', Num (ctr valsB)),
           (''ctr_diff'', Num (ctr valsA - ctr valsB)),
           (''pos_a'', Num (position valsA)), (''pos_b'', Num (position valsB)),
           (''pos_diff'', Num (position valsA - position valsB)),
           (''range_a'', range_val rangeA), (''range_b'', range_val rangeB),
           (''compare_mode'', Str compareMode)]
          out)"

text \<open>Lines 970 to 999 of the node: both maps, the union of their keys, one record per key.\<close>

definition compare_rows ::
  "string list \<Rightarrow> GscQueryRow list \<Rightarrow> GscQueryRow list \<Rightarrow> date_range \<Rightarrow> date_range \<Rightarrow> string
    \<Rightarrow> jsobj list" where
  "compare_rows dims rowsA rowsB rangeA rangeB compareMode =
    (let mapA = rowsToMap rowsA dims; mapB = rowsToMap rowsB dims;
         allKeys = new_Set (map fst mapA @ map fst mapB)
     in map (\<lambda>k. compare_record dims (map_of mapA k) (map_of mapB k) rangeA rangeB compareMode)
          allKeys)"

text \<open>
  Reading aids for the join claims: a dimension value that holds the separator, and one
  that ends in a bar.
\<close>

fun has_sep :: "string \<Rightarrow> bool" where
  "has_sep (c # d # cs) = ((c = CHR ''|'' \<and> d = CHR ''|'') \<or> has_sep (d # cs))"
| "has_sep cs = False"

definition ends_bar :: "string \<Rightarrow> bool" where
  "ends_bar v = (v \<noteq> [] \<and> last v = CHR ''|'')"

section \<open>The operations of the node\<close>

text \<open>
  The parameters \<^verbatim>\<open>execute\<close> reads for one input item. The filter groups are taken as
  already built from the filter collection (lines 830 to 853, string splitting only).
\<close>

record item =
  operation :: string
  continueOnFail :: bool
  filterGroups :: "filter_group list"
  siteUrlMode :: string
  siteUrlManual :: string
  siteUrlParam :: string
  dateRangeMode :: string
  startDateParam :: string
  endDateParam :: string
  rowLimitParam :: int
  searchTypeParam :: string
  dimensionsParam :: "string list"
  siteUrlModeCompare :: string
  siteUrlCompareManual :: string
  siteUrlCompare :: string
  dimensionsCompare :: "string list"
  dateRangeModeA :: string
  startDateA :: string
  endDateA :: string
  compareModeParam :: string
  dateRangeModeB :: string
  startDateB :: string
  endDateB :: string
  rowLimitCompare :: int
  searchTypeCompare :: string

record out_item =
  json :: jsobj
  pairedItem :: nat

definition is_space :: "char \<Rightarrow> bool" where
  "is_space c = (c \<in> set [CHR '' '', CHR 0x09, CHR 0x0A, CHR 0x0B, CHR 0x0C, CHR 0x0D])"

definition js_trim :: "string \<Rightarrow> string" where
  "js_trim s = rev (dropWhile is_space (rev (dropWhile is_space s)))"

definition starts_with :: "string \<Rightarrow> string \<Rightarrow> bool" where
  "starts_with p s = (take (length p) s = p)"

definition validateSiteUrlOrThrow :: "string \<Rightarrow> string \<Rightarrow> error + string" where
  "validateSiteUrlOrThrow url context =
    (let trimmed = js_trim url
     in if trimmed = [] \<or> trimmed = ''__NO_SITES__''
        then Inl (NodeOperationError (''No site selected for '' @ context @ ''.''))
        else if \<not> (starts_with ''http://'' trimmed \<or> starts_with ''https://'' trimmed)
                \<and> \<not> starts_with ''sc-domain:'' trimmed
        then Inl (NodeOperationError
          ''Site URL must start with http(s):// or sc-domain:. Example: https://example.com/ or sc-domain:example.com'')
        else Inr trimmed)"

definition nth_val :: "string list \<Rightarrow> nat \<Rightarrow> jsval" where
  "nth_val xs i = (if i < length xs then Str (xs ! i) else Undefined)"

definition mapRow :: "string list \<Rightarrow> GscQueryRow \<Rightarrow> jsobj" where
  "mapRow dims row =
    obj_sets
      [(''clicks'', Num (clicks row)), (''impressions'', Num (impressions row)),
       (''ctr'', Num (ctr row)), (''position'', Num (position row))]
      (case keys row of
         Some ks \<Rightarrow> foldl (\<lambda>acc di. map_set (snd di) (nth_val ks (fst di)) acc) [] (enumerate 0 dims)
       | None \<Rightarrow> [])"

definition non_empty :: "string \<Rightarrow> string \<Rightarrow> string" where
  "non_empty s dflt = (if s = [] then dflt else s)"

definition error_message :: "error \<Rightarrow> string" where
  "error_message e = (case e of TransportError m \<Rightarrow> m | RangeError m \<Rightarrow> m | NodeOperationError m \<Rightarrow> m)"

definition groups_field :: "filter_group list \<Rightarrow> filter_group list option" where
  "groups_field gs = (if gs = [] then None else Some gs)"

text \<open>
  The body of the \<^verbatim>\<open>try\<close> block for the two operations that page through the query
  endpoint. It gets the array \<open>returnData\<close> and hands it back as it leaves it, together
  with the error thrown, if any. The operations \<^verbatim>\<open>getSites\<close> and \<^verbatim>\<open>inspectUrl\<close> use other
  endpoints and are outside this development: for them the body does nothing here.
\<close>

definition try_body ::
  "env \<Rightarrow> 's remote \<Rightarrow> nat \<Rightarrow> item \<Rightarrow> out_item list \<Rightarrow> 's \<Rightarrow> (error + unit) \<times> out_item list \<times> 's" where
  "try_body e remote i it returnData s =
    (if operation it = ''getPageInsights'' then
       (case validateSiteUrlOrThrow
               (if siteUrlMode it = ''manual'' then siteUrlManual it else siteUrlParam it)
               ''page insights'' of
          Inl err \<Rightarrow> (Inl err, returnData, s)
        | Inr site \<Rightarrow>
            (case rangeFromPreset e (dateRangeMode it) (Some (startDateParam it)) (Some (endDateParam it)) of
               Inl err \<Rightarrow> (Inl err, returnData, s)
             | Inr r \<Rightarrow>
                 (case fetchAllRows remote site
                         \<lparr>dimensionFilterGroups = groups_field (filterGroups it),
                          body_startDate = startDate r, body_endDate = endDate r,
                          dimensions = dimensionsParam it,
                          rowLimit = Some (max 1 (min (rowLimitParam it) 25000)),
                          searchType = searchTypeParam it\<rparr>
                         (rowLimitParam it) s of
                    (Inl err, s') \<Rightarrow> (Inl err, returnData, s')
                  | (Inr rows, s') \<Rightarrow>
                      (Inr (), returnData @ map (\<lambda>r. \<lparr>json = mapRow (dimensionsParam it) r, pairedItem = i\<rparr>) rows,
                       s'))))
     else if operation it = ''comparePageInsights'' then
       (case validateSiteUrlOrThrow
               (if non_empty (siteUrlModeCompare it) ''list'' = ''manual''
                then siteUrlCompareManual it else siteUrlCompare it)
               ''comparison'' of
          Inl err \<Rightarrow> (Inl err, returnData, s)
        | Inr site \<Rightarrow>
            if dimensionsCompare it = []
            then (Inl (NodeOperationError ''At least one dimension is required for comparison.''),
                  returnData, s)
            else
              (case rangeFromPreset e (non_empty (dateRangeModeA it) ''last28d'')
                      (Some (startDateA it)) (Some (endDateA it)) of
                 Inl err \<Rightarrow> (Inl err, returnData, s)
               | Inr rangeA \<Rightarrow>
                   (case buildCompareRanges e (non_empty (compareModeParam it) ''prevPeriod'') rangeA
                           (if non_empty (compareModeParam it) ''prevPeriod'' = ''custom''
                            then Some \<lparr>cb_mode = Some (non_empty (dateRangeModeB it) ''last28d''),
                                       cb_start = Some (startDateB it), cb_end = Some (endDateB it)\<rparr>
                            else None) of
                      Inl err \<Rightarrow> (Inl err, returnData, s)
                    | Inr (ra, rangeB) \<Rightarrow>
                        (let lim = (if rowLimitCompare it = 0 then 1000 else rowLimitCompare it);
                             bodyOf = (\<lambda>r. \<lparr>dimensionFilterGroups = groups_field (filterGroups it),
                                  body_startDate = startDate r, body_endDate = endDate r,
                                  dimensions = dimensionsCompare it, rowLimit = None,
                                  searchType = non_empty (searchTypeCompare it) ''web''\<rparr>)
                         in case fetchAllRows remote site (bodyOf rangeA) lim s of
                              (Inl err, s') \<Rightarrow> (Inl err, returnData, s')
                            | (Inr rowsA, s') \<Rightarrow>
                                (case fetchAllRows remote site (bodyOf rangeB) lim s' of
                                   (Inl err, s'') \<Rightarrow> (Inl err, returnData, s'')
                                 | (Inr rowsB, s'') \<Rightarrow>
                                     (Inr (),
                                      returnData @ map (\<lambda>out. \<lparr>json = out, pairedItem = i\<rparr>)
                                        (compare_rows (dimensionsCompare it) rowsA rowsB rangeA rangeB
                                           (non_empty (compareModeParam it) ''prevPeriod'')),
                                      s''))))))
     else (Inr (), returnData, s))"

text \<open>
  One turn of the loop over the input items: the \<^verbatim>\<open>try\<close> block and its \<^verbatim>\<open>catch\<close>, which
  calls \<^verbatim>\<open>pushErr\<close>. \<open>Inl\<close> is an error that leaves \<^verbatim>\<open>execute\<close>.
\<close>

definition run_item ::
  "env \<Rightarrow> 's remote \<Rightarrow> nat \<Rightarrow> item \<Rightarrow> out_item list \<Rightarrow> 's \<Rightarrow> (error + out_item list) \<times> 's" where
  "run_item e remote i it returnData s =
    (case try_body e remote i it returnData s of
       (Inr u, rd, s') \<Rightarrow> (Inr rd, s')
     | (Inl err, rd, s') \<Rightarrow>
         if continueOnFail it
         then (Inr (rd @ [\<lparr>json = [(''error'', Str (error_message err))], pairedItem = i\<rparr>]), s')
         else (Inl err, s'))"

fun execute_from ::
  "env \<Rightarrow> 's remote \<Rightarrow> nat \<Rightarrow> item list \<Rightarrow> out_item list \<Rightarrow> 's \<Rightarrow> (error + out_item list) \<times> 's" where
  "execute_from e remote i [] returnData s = (Inr returnData, s)"
| "execute_from e remote i (it # items) returnData s =
    (case run_item e remote i it returnData s of
       (Inl err, s') \<Rightarrow> (Inl err, s')
     | (Inr rd, s') \<Rightarrow> execute_from e remote (Suc i) items rd s')"

definition execute :: "env \<Rightarrow> 's remote \<Rightarrow> item list \<Rightarrow> 's \<Rightarrow> (error + out_item list list) \<times> 's" where
  "execute e remote items s =
    (case execute_from e remote 0 items [] s of
       (Inl err, s') \<Rightarrow> (Inl err, s')
     | (Inr rd, s') \<Rightarrow> (Inr [rd], s'))"

section \<open>Reference notions for the date claims\<close>

text \<open>
  \<^verbatim>\<open>Date.UTC(d.getFullYear(), d.getMonth(), d.getDate())\<close> for a valid date \<open>d\<close>, as
  \<^verbatim>\<open>daysInclusive\<close> computes it: the local calendar day read as a UTC midnight.
\<close>

definition local_midnight_utc :: "env \<Rightarrow> int \<Rightarrow> int" where
  "local_midnight_utc e t =
    (let lt = LocalTime e t
     in MakeDate (MakeDay (MakeFullYear (YearFromDay (Day lt))) (MonthFromDay (Day lt))
                    (DateFromDay (Day lt))) 0)"


text \<open>
  Calendar subtraction of months the way \<^verbatim>\<open>setMonth\<close> does it: the first day of the
  month \<open>k\<close> months before the month of day \<open>n\<close>, the year rolled over as needed,
  moved on by the day of the month of \<open>n\<close> less one. A day of the month that the
  target month does not have runs over into the month after it.
\<close>

definition months_back :: "int \<Rightarrow> int \<Rightarrow> int" where
  "months_back k n = MakeDay (YearFromDay n) (MonthFromDay n - k) (DateFromDay n)"

text \<open>The first day of a preset range that ends on day \<open>n\<close>.\<close>

definition preset_start :: "string \<Rightarrow> int \<Rightarrow> int" where
  "preset_start mode n =
    (if mode = ''last7d'' then n - 7
     else if mode = ''last28d'' then n - 28
     else if mode = ''last3mo'' then months_back 3 n
     else if mode = ''last12mo'' then months_back 12 n
     else n - 28)"

text \<open>Sample data for concrete runs.\<close>

definition sample_row :: "string \<Rightarrow> real \<Rightarrow> GscQueryRow" where
  "sample_row k c = \<lparr>keys = Some [k], clicks = c, impressions = 0, ctr = 0, position = 0\<rparr>"


definition sample_body :: "int option \<Rightarrow> body" where
  "sample_body rl = \<lparr>dimensionFilterGroups = None, body_startDate = ''2024-03-01'',
     body_endDate = ''2024-03-10'', dimensions = [''page''], rowLimit = rl, searchType = ''web''\<rparr>"

text \<open>A row with the given key tuple and click count.\<close>

definition keyed_row :: "string list \<Rightarrow> real \<Rightarrow> GscQueryRow" where
  "keyed_row ks c = \<lparr>keys = Some ks, clicks = c, impressions = 0, ctr = 0, position = 0\<rparr>"

text \<open>
  Reading aids for the error claim, on the recorded requests of a run: every request was
  answered; and the run was cut short by error \<open>err\<close>, which the last request got,
  all requests before it having been answered.
\<close>

definition all_ok :: "(request \<times> (error + response)) list \<Rightarrow> bool" where
  "all_ok tr = (\<forall>p \<in> set tr. \<exists>x. snd p = Inr x)"

definition aborted :: "error \<Rightarrow> (request \<times> (error + response)) list \<Rightarrow> bool" where
  "aborted err tr = (tr \<noteq> [] \<and> snd (last tr) = Inl err \<and> all_ok (butlast tr))"

text \<open>An input item with ordinary parameter values for the operation \<open>op\<close>.\<close>

definition sample_item :: "string \<Rightarrow> bool \<Rightarrow> item" where
  "sample_item op cof = \<lparr>operation = op, continueOnFail = cof, filterGroups = [],
     siteUrlMode = ''list'', siteUrlManual = [], siteUrlParam = ''sc-domain:example.com'',
     dateRangeMode = ''last7d'', startDateParam = [], endDateParam = [], rowLimitParam = 1000,
     searchTypeParam = ''web'', dimensionsParam = [''page''],
     siteUrlModeCompare = ''list'', siteUrlCompareManual = [],
     siteUrlCompare = ''sc-domain:example.com'', dimensionsCompare = [''page''],
     dateRangeModeA = ''last7d'', startDateA = [], endDateA = [], compareModeParam = ''prevPeriod'',
     dateRangeModeB = ''last28d'', startDateB = [], endDateB = [], rowLimitCompare = 1000,
     searchTypeCompare = ''web''\<rparr>"

text \<open>A remote that answers its first request with one row and rejects every later one.\<close>

definition flaky :: "nat remote" where
  "flaky n req = (if n = 0 then Inr (Some [sample_row ''/a'' 10]) else Inl (TransportError ''503''),
                  Suc n)"

text \<open>The first page request of the sample item for the range \<open>sd\<close> to \<open>ed\<close>.\<close>

definition sample_request :: "string \<Rightarrow> string \<Rightarrow> request" where
  "sample_request sd ed = \<lparr>req_site = ''sc-domain:example.com'',
     req_body = \<lparr>dimensionFilterGroups = None, body_startDate = sd, body_endDate = ed,
                 dimensions = [''page''], rowLimit = None, searchType = ''web''\<rparr>,
     req_rowLimit = 1000, req_startRow = 0\<rparr>"

section \<open>Properties of the fetcher\<close>


lemma recording_step:
  "remote s req = (x, s1) \<Longrightarrow> recording remote (tr, s) req = (x, (tr @ [(req, x)], s1))"
  by (simp add: recording_def)

lemma fetch_loop_requests:
  "fetch_loop (recording remote) siteUrl b targetLimit per rows startRow (tr, s) = (r, (tr', s'))
    \<Longrightarrow> int (length tr') \<le> int (length tr) + max 0 (targetLimit - int (length rows))"
proof (induction "nat (targetLimit - int (length rows))" arbitrary: rows startRow tr s
        rule: less_induct)
  case less
  let ?req = "\<lparr>req_site = siteUrl, req_body = b, req_rowLimit = per, req_startRow = startRow\<rparr>"
  show ?case
  proof (cases "int (length rows) < targetLimit")
    case False
    with less.prems show ?thesis
      by (simp add: fetch_loop.simps)
  next
    case lt: True
    obtain x s1 where rem: "remote s ?req = (x, s1)"
      by (cases "remote s ?req")
    have rec: "recording remote (tr, s) ?req = (x, (tr @ [(?req, x)], s1))"
      using rem by (rule recording_step)
    show ?thesis
    proof (cases x)
      case (Inl e)
      with less.prems lt rec show ?thesis
        by (auto simp add: fetch_loop.simps)
    next
      case (Inr resp)
      show ?thesis
      proof (cases "length (chunk_of resp) = 0 \<or> int (length (chunk_of resp)) < per
                     \<or> int (length (rows @ chunk_of resp)) \<ge> targetLimit")
        case True
        with less.prems lt rec Inr show ?thesis
          by (auto simp add: fetch_loop.simps split: if_splits)
      next
        case False
        with less.prems lt rec Inr
        have step: "fetch_loop (recording remote) siteUrl b targetLimit per (rows @ chunk_of resp)
                      (startRow + length (chunk_of resp)) (tr @ [(?req, x)], s1) = (r, (tr', s'))"
          by (simp add: fetch_loop.simps [of _ _ _ _ _ rows])
        from False have ne: "length (chunk_of resp) \<noteq> 0"
          by simp
        with lt have "nat (targetLimit - int (length (rows @ chunk_of resp)))
                       < nat (targetLimit - int (length rows))"
          by simp
        moreover from ne have "1 \<le> int (length (chunk_of resp))"
          by (cases "chunk_of resp") simp_all
        ultimately show ?thesis
          using less.hyps [OF _ step] lt by (simp add: max_def split: if_splits)
      qed
    qed
  qed
qed





text \<open>
  C9. \<^verbatim>\<open>fetchAllRows\<close> terminates for every target limit and every remote: the loop is
  a total function, its measure being the distance of the collected row count from the
  target, which every iteration that does not leave the loop decreases. Whatever the
  remote answers, the fetch makes at most \<open>targetLimit\<close> page requests (none at all when
  the limit is not positive).
\<close>

theorem fetchAllRows_request_bound:
  "length (fst (snd (fetchAllRows (recording remote) siteUrl b targetLimit ([], s)))) \<le> nat targetLimit"
proof -
  obtain r tr' s' where
    fl: "fetch_loop (recording remote) siteUrl b targetLimit (perRequest b) [] 0 ([], s) = (r, (tr', s'))"
    by (metis prod.exhaust)
  from fetch_loop_requests [OF fl] have "length tr' \<le> nat targetLimit"
    by simp
  with fl show ?thesis
    by (cases r) (simp_all add: fetchAllRows_def)
qed

text \<open>
  C1. For every target limit \<open>\<ge> 0\<close> and every remote, a fetch that returns rows returns
  at most \<open>targetLimit\<close> of them: the output is the collected rows cut to the first
  \<open>targetLimit\<close>.
\<close>

theorem fetchAllRows_at_most_targetLimit:
  assumes "fetchAllRows remote siteUrl b targetLimit s = (Inr rows, s')"
    and "0 \<le> targetLimit"
  shows "int (length rows) \<le> targetLimit \<and>
         (\<exists>collected. fetch_loop remote siteUrl b targetLimit (perRequest b) [] 0 s = (Inr collected, s')
            \<and> rows = take (nat targetLimit) collected)"
  using assms
  by (auto simp add: fetchAllRows_def slice0_def split: prod.splits sum.splits)

lemma fetch_three_rows_limit_two:
  "fetchAllRows (mock_source [sample_row ''/a'' 1, sample_row ''/b'' 2, sample_row ''/c'' 3] 100)
     ''sc-domain:example.com'' (sample_body None) 2 ()
   = (Inr [sample_row ''/a'' 1, sample_row ''/b'' 2], ())"
  by (simp add: fetchAllRows_def fetch_loop.simps perRequest_def sample_body_def mock_source_def
        chunk_of_def slice0_def)

theorem fetchAllRows_at_most_targetLimit_witness:
  "fetchAllRows (mock_source [sample_row ''/a'' 1, sample_row ''/b'' 2, sample_row ''/c'' 3] 100)
     ''sc-domain:example.com'' (sample_body None) 2 ()
     = (Inr [sample_row ''/a'' 1, sample_row ''/b'' 2], ())
   \<and> (0::int) \<le> 2
   \<and> int (length [sample_row ''/a'' 1, sample_row ''/b'' 2]) \<le> 2"
  using fetchAllRows_at_most_targetLimit [OF fetch_three_rows_limit_two]
  by (simp add: fetch_three_rows_limit_two)



section \<open>The calendar\<close>

lemma div_bounds:
  fixes x k :: int
  assumes "0 < k"
  shows "k * (x div k) \<le> x" and "x < k * (x div k) + k"
proof -
  have "k * (x div k) + x mod k = x" by simp
  moreover have "0 \<le> x mod k" "x mod k < k" using assms by simp_all
  ultimately show "k * (x div k) \<le> x" and "x < k * (x div k) + k" by linarith+
qed

lemma div_succ_int:
  fixes x k :: int
  assumes "0 < k"
  shows "(x + 1) div k = x div k + (if k dvd (x + 1) then 1 else 0)"
proof -
  have x: "k * (x div k) + x mod k = x" by simp
  have r: "0 \<le> x mod k" "x mod k < k" using assms by simp_all
  show ?thesis
  proof (cases "x mod k = k - 1")
    case True
    with x have e: "x + 1 = k * (x div k + 1) + 0"
      by (simp add: algebra_simps)
    have "(x + 1) div k = x div k + 1"
      by (rule int_div_pos_eq [OF e]) (use assms in simp_all)
    moreover have "(x + 1) mod k = 0"
      by (rule int_mod_pos_eq [OF e]) (use assms in simp_all)
    ultimately show ?thesis
      by (simp add: dvd_eq_mod_eq_0)
  next
    case False
    hence lt: "x mod k + 1 < k" using r by simp
    have e: "x + 1 = k * (x div k) + (x mod k + 1)" using x by simp
    have "(x + 1) div k = x div k"
      by (rule int_div_pos_eq [OF e]) (use r lt in simp_all)
    moreover have "(x + 1) mod k = x mod k + 1"
      by (rule int_mod_pos_eq [OF e]) (use r lt in simp_all)
    ultimately show ?thesis
      using r by (simp add: dvd_eq_mod_eq_0)
  qed
qed

lemma dvd_shift: "(k::int) dvd c \<Longrightarrow> k dvd (y - c) \<longleftrightarrow> k dvd y"
  by (simp add: dvd_diff_left_iff)

lemma div_step:
  fixes y c k :: int
  assumes "0 < k" and "k dvd (c - 1)"
  shows "(y + 1 - c) div k = (y - c) div k + (if k dvd y then 1 else 0)"
proof -
  have "(y - c + 1) div k = (y - c) div k + (if k dvd (y - c + 1) then 1 else 0)"
    by (rule div_succ_int [OF assms(1)])
  moreover have "y - c + 1 = y + 1 - c" and "y - c + 1 = y - (c - 1)"
    by simp_all
  moreover have "k dvd (y - (c - 1)) \<longleftrightarrow> k dvd y"
    by (rule dvd_shift [OF assms(2)])
  ultimately show ?thesis
    by (simp only:)
qed

lemma leap_count:
  assumes "r \<Longrightarrow> q" and "q \<Longrightarrow> p"
  shows "(if p \<and> (\<not> q \<or> r) then 1 else 0) =
         (if p then 1 else 0) - (if q then 1 else 0) + (if r then 1 else (0::int))"
  using assms by (cases p; cases q; cases r) simp_all

lemma sum_shuffle:
  fixes P :: int
  assumes "P = P' + 365"
  shows "P + (A + a) - (B + b) + (C + c) = P' + A - B + C + 365 + (a - b + c)"
  using assms by simp

lemma DayFromYear_Suc: "DayFromYear (y + 1) = DayFromYear y + 365 + leapDays y"
proof -
  have a: "(y + 1 - 1969) div 4 = (y - 1969) div 4 + (if 4 dvd y then 1 else 0)"
    by (rule div_step) simp_all
  have b: "(y + 1 - 1901) div 100 = (y - 1901) div 100 + (if 100 dvd y then 1 else 0)"
    by (rule div_step) simp_all
  have c: "(y + 1 - 1601) div 400 = (y - 1601) div 400 + (if 400 dvd y then 1 else 0)"
    by (rule div_step) simp_all
  have "(100::int) dvd 400" and "(4::int) dvd 100" by simp_all
  hence d1: "400 dvd y \<Longrightarrow> 100 dvd y" and d2: "100 dvd y \<Longrightarrow> 4 dvd y"
    by (blast intro: dvd_trans)+
  have l: "leapDays y = (if 4 dvd y then 1 else 0) - (if 100 dvd y then 1 else 0)
                         + (if 400 dvd y then 1 else 0)"
    unfolding leapDays_def InLeapYear_def mod_eq_0_iff_dvd
    by (rule leap_count [OF d1 d2])
  have "DayFromYear (y + 1) = 365 * (y + 1 - 1970) + (y + 1 - 1969) div 4 - (y + 1 - 1901) div 100
          + (y + 1 - 1601) div 400"
    by (simp only: DayFromYear_def)
  also have "\<dots> = DayFromYear y + 365 + leapDays y"
    unfolding a b c l DayFromYear_def by (rule sum_shuffle) simp
  finally show ?thesis .
qed

lemma year_est1:
  fixes d a q4 q100 q400 :: int
  assumes "146097 * a \<le> 400 * d"
    and "4 * q4 \<le> (1970 + a - 1) - 1969" and "(1970 + a - 1) - 1901 < 100 * q100 + 100"
    and "400 * q400 \<le> (1970 + a - 1) - 1601"
  shows "365 * ((1970 + a - 1) - 1970) + q4 - q100 + q400 \<le> d"
proof -
  have "365 * ((1970 + a - 1) - 1970) = 365 * a - 365"
    by simp
  with assms show ?thesis
    by linarith
qed

lemma year_est2:
  fixes d a q4 q100 q400 :: int
  assumes "400 * d < 146097 * a + 146097"
    and "(1970 + a + 2) - 1969 < 4 * q4 + 4" and "100 * q100 \<le>  (1970 + a + 2) - 1901"
    and "(1970 + a + 2) - 1601 < 400 * q400 + 400"
  shows "d < 365 * ((1970 + a + 2) - 1970) + q4 - q100 + q400"
proof -
  have "365 * ((1970 + a + 2) - 1970) = 365 * a + 730"
    by simp
  with assms show ?thesis
    by linarith
qed

lemma year_est_lower: "DayFromYear (1970 + (400 * d) div 146097 - 1) \<le> d"
  unfolding DayFromYear_def
  by (rule year_est1) (rule div_bounds, simp)+

lemma year_est_upper: "d < DayFromYear (1970 + (400 * d) div 146097 + 2)"
  unfolding DayFromYear_def
  by (rule year_est2) (rule div_bounds, simp)+

lemma YearFromDay_bounds:
  "DayFromYear (YearFromDay d) \<le> d" "d < DayFromYear (YearFromDay d + 1)"
proof -
  define y where "y = 1970 + (400 * d) div 146097"
  have lo: "DayFromYear (y - 1) \<le> d" and hi: "d < DayFromYear (y + 1 + 1)"
    using year_est_lower [of d] year_est_upper [of d] by (simp_all add: y_def add.assoc)
  have Y: "YearFromDay d = (if DayFromYear (y + 1) \<le> d then y + 1
        else if DayFromYear y \<le> d then y else y - 1)"
    by (simp add: YearFromDay_def y_def Let_def)
  show "DayFromYear (YearFromDay d) \<le> d"
    unfolding Y using lo by simp
  show "d < DayFromYear (YearFromDay d + 1)"
    unfolding Y using hi by (auto simp add: not_le)
qed

lemma leapDays_cases: "leapDays y = 0 \<or> leapDays y = 1"
  by (simp add: leapDays_def)

lemma DayWithinYear_range:
  "0 \<le> DayWithinYear d" "DayWithinYear d < 365 + leapDays (YearFromDay d)"
  using YearFromDay_bounds [of d] DayFromYear_Suc [of "YearFromDay d"]
  by (simp_all add: DayWithinYear_def)

lemma MonthFromDay_range: "0 \<le> MonthFromDay d" "MonthFromDay d \<le> 11"
  by (simp_all add: MonthFromDay_def Let_def)

lemma DateFromDay_range: "1 \<le> DateFromDay d" "DateFromDay d \<le> 31"
  using DayWithinYear_range [of d] leapDays_cases [of "YearFromDay d"]
  unfolding DateFromDay_def MonthFromDay_def monthStart_def Let_def
  by (auto split: if_splits)

lemma MakeDay_civil:
  "MakeDay (YearFromDay d) (MonthFromDay d) (DateFromDay d + k) = d + k"
proof -
  have "MonthFromDay d div 12 = 0" "MonthFromDay d mod 12 = MonthFromDay d"
    using MonthFromDay_range [of d] by simp_all
  thus ?thesis
    by (simp add: MakeDay_def DateFromDay_def DayWithinYear_def)
qed

lemma DayFromYear_mono_aux: "0 \<le> k \<Longrightarrow> DayFromYear y + 365 * k \<le> DayFromYear (y + k)"
proof (induction k rule: int_ge_induct)
  case base
  show ?case by simp
next
  case (step i)
  have "DayFromYear (y + (i + 1)) = DayFromYear (y + i) + 365 + leapDays (y + i)"
    using DayFromYear_Suc [of "y + i"] by (simp add: add.assoc)
  with step leapDays_cases [of "y + i"] show ?case
    by auto
qed

lemma DayFromYear_mono: "y \<le> y' \<Longrightarrow> DayFromYear y \<le> DayFromYear y'"
  using DayFromYear_mono_aux [of "y' - y" y] by simp

lemma YearFromDay_unique:
  assumes "DayFromYear y \<le> d" and "d < DayFromYear (y + 1)"
  shows "YearFromDay d = y"
proof (rule antisym)
  show "YearFromDay d \<le> y"
  proof (rule ccontr)
    assume "\<not> YearFromDay d \<le> y"
    hence "y + 1 \<le> YearFromDay d" by simp
    from DayFromYear_mono [OF this] YearFromDay_bounds(1) [of d] assms(2)
    show False by simp
  qed
  show "y \<le> YearFromDay d"
  proof (rule ccontr)
    assume "\<not> y \<le> YearFromDay d"
    hence "YearFromDay d + 1 \<le> y" by simp
    from DayFromYear_mono [OF this] YearFromDay_bounds(2) [of d] assms(1)
    show False by simp
  qed
qed

lemma month_cases:
  fixes m :: int
  assumes "0 \<le> m" "m \<le> 11"
  shows "m = 0 \<or> m = 1 \<or> m = 2 \<or> m = 3 \<or> m = 4 \<or> m = 5 \<or> m = 6 \<or> m = 7 \<or> m = 8
            \<or> m = 9 \<or> m = 10 \<or> m = 11"
proof -
  have "m \<in> set [0..11]" using assms by simp
  thus ?thesis by (simp add: upto.simps)
qed

lemma monthStart_range:
  assumes "0 \<le> m" "m \<le> 11" "1 \<le> dt" "dt \<le> DaysInMonth y m"
  shows "0 \<le> monthStart y m + dt - 1" "monthStart y m + dt - 1 < 365 + leapDays y"
  using month_cases [OF assms(1,2)] assms(3,4) leapDays_cases [of y]
  by (elim disjE; simp add: monthStart_def DaysInMonth_def; linarith)+

lemma month_of_offset:
  assumes "0 \<le> m" "m \<le> 11" "1 \<le> dt" "dt \<le> DaysInMonth y m"
    and "w = monthStart y m + dt - 1" and "l = leapDays y"
  shows "(if w < 31 then 0 else if w < 59 + l then 1 else if w < 90 + l then 2
        else if w < 120 + l then 3 else if w < 151 + l then 4 else if w < 181 + l then 5
        else if w < 212 + l then 6 else if w < 243 + l then 7 else if w < 273 + l then 8
        else if w < 304 + l then 9 else if w < 334 + l then 10 else 11) = m"
  using month_cases [OF assms(1,2)] assms(3-) leapDays_cases [of y]
  by (elim disjE; simp add: monthStart_def DaysInMonth_def)

lemma civil_of_MakeDay:
  assumes m: "0 \<le> m" "m \<le> 11" and dt: "1 \<le> dt" "dt \<le> DaysInMonth y m"
  shows "YearFromDay (MakeDay y m dt) = y"
    and "MonthFromDay (MakeDay y m dt) = m"
    and "DateFromDay (MakeDay y m dt) = dt"
proof -
  have dm: "m div 12 = 0" "m mod 12 = m"
    using m by simp_all
  have M: "MakeDay y m dt = DayFromYear y + (monthStart y m + dt - 1)"
    by (simp add: MakeDay_def dm)
  note rng = monthStart_range [OF m dt]
  show Y: "YearFromDay (MakeDay y m dt) = y"
    by (rule YearFromDay_unique) (use rng DayFromYear_Suc [of y] in \<open>simp_all add: M\<close>)
  have W: "DayWithinYear (MakeDay y m dt) = monthStart y m + dt - 1"
    unfolding DayWithinYear_def Y by (simp add: M)
  show Mo: "MonthFromDay (MakeDay y m dt) = m"
    unfolding MonthFromDay_def Let_def W Y
    by (rule month_of_offset [OF m dt refl refl])
  show "DateFromDay (MakeDay y m dt) = dt"
    unfolding DateFromDay_def W Y Mo by simp
qed

lemma digit_cases:
  fixes k :: nat
  assumes "k < 10"
  shows "k \<in> {9, 8, 7, 6, 5, 4, 3, 2, 1, 0}"
proof -
  have "int k \<in> set [0..9]" using assms by simp
  hence "int k \<in> {9, 8, 7, 6, 5, 4, 3, 2, 1, 0}"
    by (auto simp add: upto.simps)
  thus ?thesis by simp
qed

lemma of_char_digit: "(of_char (digit d) :: nat) = 48 + d mod 10"
  using digit_cases [of "d mod 10"]
  by (auto simp add: digit_def)

lemma digit_val_digit: "digit_val (digit d) = Some (d mod 10)"
  by (simp add: digit_val_def of_char_digit Let_def)

lemma digit_not_punct:
  "digit d \<noteq> CHR ''-''" "digit d \<noteq> CHR ''+''" "digit d \<noteq> CHR ''T''"
proof -
  have "(of_char (digit d) :: nat) \<noteq> of_char CHR ''-''"
    and "(of_char (digit d) :: nat) \<noteq> of_char CHR ''+''"
    and "(of_char (digit d) :: nat) \<noteq> of_char CHR ''T''"
    using mod_less_divisor [of 10 d] by (simp_all add: of_char_digit)
  thus "digit d \<noteq> CHR ''-''" "digit d \<noteq> CHR ''+''" "digit d \<noteq> CHR ''T''"
    by auto
qed

lemma read_digit_step:
  "read_digits acc (digit d # cs) = read_digits (10 * acc + d mod 10) cs"
  by (simp add: digit_val_digit)

lemma dec_step: "10 * (n div 10) + n mod 10 = (n::nat)"
  by simp

lemma div_100: "(n::nat) div 100 = n div 10 div 10"
  and div_1000: "(n::nat) div 1000 = n div 10 div 10 div 10"
  and div_10000: "(n::nat) div 10000 = n div 10 div 10 div 10 div 10"
  and div_100000: "(n::nat) div 100000 = n div 10 div 10 div 10 div 10 div 10"
  by (simp_all add: div_mult2_eq [symmetric])

lemma read_pad2: "n < 100 \<Longrightarrow> read_digits 0 (pad2 n) = Some n"
  by (simp add: pad2_def digit_val_digit)

lemma read_pad3: "n < 1000 \<Longrightarrow> read_digits 0 (pad3 n) = Some n"
  by (simp add: pad3_def digit_val_digit div_100 dec_step)

lemma read_pad4: "n < 10000 \<Longrightarrow> read_digits 0 (pad4 n) = Some n"
  by (simp add: pad4_def digit_val_digit div_100 div_1000 dec_step)

lemma read_pad6: "n < 1000000 \<Longrightarrow> read_digits 0 (pad6 n) = Some n"
  by (simp add: pad6_def digit_val_digit div_100 div_1000 div_10000 div_100000 dec_step)

lemma length_pads [simp]:
  "length (pad2 n) = 2" "length (pad3 n) = 3" "length (pad4 n) = 4" "length (pad6 n) = 6"
  by (simp_all add: pad2_def pad3_def pad4_def pad6_def)

lemma hd_pads:
  "hd (pad4 n @ r) = digit (n div 1000)"
  by (simp add: pad4_def)

lemma parse_year_fmt:
  assumes "- 999999 \<le> y" "y \<le> 999999"
  shows "parse_year (year_str y @ r) = Some (y, r)"
proof (cases "0 \<le> y \<and> y \<le> 9999")
  case True
  hence "nat y < 10000" by linarith
  hence rd: "read_digits 0 (pad4 (nat y)) = Some (nat y)"
    by (rule read_pad4)
  have "pad4 (nat y) @ r \<noteq> []"
    by (simp add: pad4_def)
  with True show ?thesis
    by (simp add: parse_year_def year_str_def hd_pads digit_not_punct rd)
next
  case False
  hence n: "nat \<bar>y\<bar> < 1000000" "nat \<bar>y\<bar> \<noteq> 0"
    using assms by auto
  have rd: "read_digits 0 (pad6 (nat \<bar>y\<bar>)) = Some (nat \<bar>y\<bar>)"
    using n(1) by (rule read_pad6)
  show ?thesis
  proof (cases "y < 0")
    case True
    hence a: "\<bar>y\<bar> = - y" by simp
    from rd n True show ?thesis
      unfolding a by (simp add: parse_year_def year_str_def)
  next
    case ge: False
    hence a: "\<bar>y\<bar> = y" by simp
    from rd n ge False show ?thesis
      unfolding a by (simp add: parse_year_def year_str_def)
  qed
qed

lemma parse_month_day_fmt:
  assumes "1 \<le> m" "m \<le> 12" "1 \<le> d" "d \<le> 31"
  shows "parse_month_day (CHR ''-'' # pad2 m @ CHR ''-'' # pad2 d @ r) = Some (int m, int d, r)"
proof -
  have "read_digits 0 (pad2 m) = Some m" "read_digits 0 (pad2 d) = Some d"
    using assms by (simp_all add: read_pad2)
  with assms show ?thesis
    by (simp add: parse_month_day_def nth_append)
qed

lemma time_split:
  fixes w :: int
  assumes "0 \<le> w"
  shows "w div 3600000 * 3600000 + w div 60000 mod 60 * 60000 + w div 1000 mod 60 * 1000
           + w mod 1000 = w"
proof -
  define a where "a = w div 1000"
  define b where "b = a div 60"
  have 1: "w div 60000 = a div 60"
    unfolding a_def using zdiv_zmult2_eq [where a = w and b = 1000 and c = 60] by simp
  have 2: "w div 3600000 = b div 60"
    unfolding b_def a_def
    using zdiv_zmult2_eq [where a = w and b = 1000 and c = 60]
      zdiv_zmult2_eq [where a = w and b = 60000 and c = 60] by simp
  have 3: "1000 * a + w mod 1000 = w"
    unfolding a_def by simp
  have 4: "60 * b + a mod 60 = a"
    unfolding b_def by simp
  have 5: "60 * (b div 60) + b mod 60 = b"
    by simp
  have 6: "b div 60 * 3600000 + b mod 60 * 60000 + a mod 60 * 1000 + w mod 1000 = w"
    using 3 4 5 by linarith
  show ?thesis
    unfolding 1 2 a_def [symmetric] b_def [symmetric] by (rule 6)
qed

lemma time_fields:
  fixes w :: int
  assumes "0 \<le> w" "w < 86400000"
  shows "0 \<le> w div 3600000" "w div 3600000 \<le> 23" "0 \<le> w div 60000 mod 60"
    "w div 60000 mod 60 \<le> 59" "0 \<le> w div 1000 mod 60" "w div 1000 mod 60 \<le> 59"
    "0 \<le> w mod 1000" "w mod 1000 < 1000"
proof -
  show "0 \<le> w div 3600000"
    using assms by (simp add: pos_imp_zdiv_nonneg_iff)
  have "w div 3600000 \<le> 86399999 div 3600000"
    by (rule zdiv_mono1) (use assms in simp_all)
  thus "w div 3600000 \<le> 23" by simp
  have "w div 60000 mod 60 < 60" "w div 1000 mod 60 < 60"
    by simp_all
  thus "w div 60000 mod 60 \<le> 59" "w div 1000 mod 60 \<le> 59"
    by linarith+
qed simp_all

lemma parse_time_fields:
  assumes "h \<le> 23" "mi \<le> 59" "sc \<le> 59" "ms < 1000"
  shows "parse_time (CHR ''T'' # pad2 h @ CHR '':'' # pad2 mi @ CHR '':'' # pad2 sc
            @ CHR ''.'' # pad3 ms @ ''Z'')
         = Some (MakeTime (int h) (int mi) (int sc) (int ms))"
proof -
  let ?s = "CHR ''T'' # pad2 h @ CHR '':'' # pad2 mi @ CHR '':'' # pad2 sc
            @ CHR ''.'' # pad3 ms @ ''Z''"
  have r: "read_digits 0 (pad2 h) = Some h" "read_digits 0 (pad2 mi) = Some mi"
    "read_digits 0 (pad2 sc) = Some sc" "read_digits 0 (pad3 ms) = Some ms"
    using assms by (simp_all add: read_pad2 read_pad3)
  have n: "?s \<noteq> []" "?s ! 0 = CHR ''T''" "?s ! 3 = CHR '':''" "?s ! 6 = CHR '':''"
     "?s ! 9 = CHR ''.''" "?s ! 13 = CHR ''Z''" "length ?s = 14"
    by (simp_all add: pad2_def pad3_def)
  have t: "take 2 (drop 1 ?s) = pad2 h" "take 2 (drop 4 ?s) = pad2 mi"
    "take 2 (drop 7 ?s) = pad2 sc" "take 3 (drop 10 ?s) = pad3 ms"
    by (simp_all add: pad2_def pad3_def)
  show ?thesis
    unfolding parse_time_def t r using n assms by simp
qed

lemma parse_time_fmt:
  assumes "0 \<le> w" "w < 86400000"
  shows "parse_time (CHR ''T'' # iso_time w @ ''Z'') = Some w"
proof -
  define h mi sc ms where "h = w div 3600000" and "mi = w div 60000 mod 60"
    and "sc = w div 1000 mod 60" and "ms = w mod 1000"
  note f = time_fields [OF assms, folded h_def mi_def sc_def ms_def]
  have k: "nat h \<le> 23" "nat mi \<le> 59" "nat sc \<le> 59" "nat ms < 1000"
    using f by linarith+
  have i: "int (nat h) = h" "int (nat mi) = mi" "int (nat sc) = sc" "int (nat ms) = ms"
    using f by simp_all
  have s: "CHR ''T'' # iso_time w @ ''Z'' =
      CHR ''T'' # pad2 (nat h) @ CHR '':'' # pad2 (nat mi) @ CHR '':'' # pad2 (nat sc)
        @ CHR ''.'' # pad3 (nat ms) @ ''Z''"
    by (simp add: iso_time_def h_def mi_def sc_def ms_def)
  have m: "MakeTime h mi sc ms = w"
    unfolding MakeTime_def h_def mi_def sc_def ms_def
    using time_split [OF assms(1)] .
  show ?thesis
    unfolding s parse_time_fields [OF k] i m ..
qed

lemma parse_time_Nil: "parse_time [] = Some 0"
  by (simp add: parse_time_def)

lemma parse_iso_fields:
  assumes "- 999999 \<le> y" "y \<le> 999999" "1 \<le> m" "m \<le> 12" "1 \<le> d" "d \<le> 31"
    and "parse_time r = Some w"
  shows "parse_iso (year_str y @ CHR ''-'' # pad2 m @ CHR ''-'' # pad2 d @ r)
         = Some (MakeDate (MakeDay y (int m - 1) (int d)) w)"
  unfolding parse_iso_def parse_year_fmt [OF assms(1,2)]
  by (simp add: parse_month_day_fmt [OF assms(3-6)] assms(7))

lemma iso_date_fields:
  "iso_date d = year_str (YearFromDay d) @ CHR ''-'' # pad2 (nat (MonthFromDay d + 1))
                 @ CHR ''-'' # pad2 (nat (DateFromDay d)) @ []"
  by (simp add: iso_date_def)

lemma civil_fields:
  "1 \<le> nat (MonthFromDay d + 1)" "nat (MonthFromDay d + 1) \<le> 12"
  "1 \<le> nat (DateFromDay d)" "nat (DateFromDay d) \<le> 31"
  "int (nat (MonthFromDay d + 1)) - 1 = MonthFromDay d"
  "int (nat (DateFromDay d)) = DateFromDay d"
  using MonthFromDay_range [of d] DateFromDay_range [of d] by linarith+

lemma MakeDay_civil0: "MakeDay (YearFromDay d) (MonthFromDay d) (DateFromDay d) = d"
  using MakeDay_civil [of d 0] by simp

lemma parse_iso_civil:
  assumes "- 999999 \<le> YearFromDay d" "YearFromDay d \<le> 999999" and "parse_time r = Some w"
  shows "parse_iso (iso_date d @ r) = Some (MakeDate d w)"
proof -
  have "iso_date d @ r = year_str (YearFromDay d) @ CHR ''-'' # pad2 (nat (MonthFromDay d + 1))
                 @ CHR ''-'' # pad2 (nat (DateFromDay d)) @ r"
    by (simp add: iso_date_def)
  thus ?thesis
    using parse_iso_fields [OF assms(1,2) civil_fields(1-4) assms(3), of d d]
    by (simp only: civil_fields MakeDay_civil0)
qed

lemma parse_iso_date:
  assumes "- 999999 \<le> YearFromDay d" "YearFromDay d \<le> 999999"
  shows "parse_iso (iso_date d) = Some (d * msPerDay)"
  using parse_iso_civil [OF assms parse_time_Nil] by (simp add: MakeDate_def)

lemma TimeWithinDay_range: "0 \<le> TimeWithinDay t" "TimeWithinDay t < 86400000"
  by (simp_all add: TimeWithinDay_def msPerDay_def)

lemma Day_TimeWithinDay: "MakeDate (Day t) (TimeWithinDay t) = t"
  by (simp add: MakeDate_def Day_def TimeWithinDay_def)

lemma parse_iso_string:
  assumes "- 999999 \<le> YearFromDay (Day t)" "YearFromDay (Day t) \<le> 999999"
  shows "parse_iso (iso_string t) = Some t"
proof -
  have "parse_time (CHR ''T'' # iso_time (TimeWithinDay t) @ ''Z'') = Some (TimeWithinDay t)"
    by (rule parse_time_fmt) (rule TimeWithinDay_range)+
  from parse_iso_civil [OF assms this] show ?thesis
    by (simp add: iso_string_def Day_TimeWithinDay)
qed

lemma year_range:
  assumes "- 100000000 \<le> d" "d \<le> 100000000"
  shows "- 999999 \<le> YearFromDay d" "YearFromDay d \<le> 999999"
proof -
  define a where "a = (400 * d) div 146097"
  have "(400 * (- 100000000)) div 146097 \<le> a" "a \<le> (400 * 100000000) div 146097"
    unfolding a_def by (rule zdiv_mono1; use assms in simp)+
  hence a: "- 273791 \<le> a" "a \<le> 273790"
    by simp_all
  have "YearFromDay d = 1970 + a + 1 \<or> YearFromDay d = 1970 + a \<or> YearFromDay d = 1970 + a - 1"
    unfolding YearFromDay_def a_def [symmetric] Let_def by simp
  with a show "- 999999 \<le> YearFromDay d" "YearFromDay d \<le> 999999"
    by linarith+
qed

lemma Day_range:
  assumes "TimeClip t = Some t'"
  shows "t' = t" "- 100000000 \<le> Day t" "Day t \<le> 100000000"
proof -
  from assms have t: "t' = t" "- 8640000000000000 \<le> t" "t \<le> 8640000000000000"
    by (simp_all add: TimeClip_def split: if_splits)
  show "t' = t" by fact
  have "(- 8640000000000000) div msPerDay \<le> t div msPerDay"
    "t div msPerDay \<le> 8640000000000000 div msPerDay"
    by (rule zdiv_mono1; use t in \<open>simp add: msPerDay_def\<close>)+
  thus "- 100000000 \<le> Day t" "Day t \<le> 100000000"
    by (simp_all add: Day_def msPerDay_def)
qed

lemma year_str_no_T: "CHR ''T'' \<notin> set (year_str y)"
  by (simp add: year_str_def pad4_def pad6_def digit_not_punct(3) [symmetric])

lemma iso_date_no_T: "CHR ''T'' \<notin> set (iso_date d)"
  by (simp add: iso_date_def pad2_def digit_not_punct(3) [symmetric] year_str_no_T)

lemma date_part: "takeWhile (\<lambda>c. c \<noteq> CHR ''T'') (iso_string t) = iso_date (Day t)"
proof -
  have "\<forall>c \<in> set (iso_date (Day t)). c \<noteq> CHR ''T''"
    using iso_date_no_T by auto
  thus ?thesis
    by (simp add: iso_string_def takeWhile_append2)
qed

lemma date_part_date: "takeWhile (\<lambda>c. c \<noteq> CHR ''T'') (iso_date d) = iso_date d"
  using iso_date_no_T [of d] by (auto intro: takeWhile_eq_all_conv [THEN iffD2])

lemma iso_date_not_Nil: "iso_date d \<noteq> []" "iso_string t \<noteq> []"
  by (simp_all add: iso_date_def iso_string_def)

section \<open>The date helpers of the node\<close>

lemma TimeClip_valid: "TimeClip t = (if valid_time t then Some t else None)"
  by (auto simp add: TimeClip_def valid_time_def)

lemma valid_time_year:
  assumes "valid_time t"
  shows "- 999999 \<le> YearFromDay (Day t)" "YearFromDay (Day t) \<le> 999999"
proof -
  have "TimeClip t = Some t"
    using assms by (simp add: TimeClip_valid)
  from Day_range(2,3) [OF this] show "- 999999 \<le> YearFromDay (Day t)" "YearFromDay (Day t) \<le> 999999"
    by (rule year_range)+
qed

lemma date_parse_valid:
  assumes "date_parse e s = Some t"
  shows "valid_time t" "s \<noteq> []" "truthy (Some s)"
  using assms
  by (auto simp add: date_parse_def TimeClip_valid truthy_def
        split: if_splits option.splits bind_splits)

lemma date_parse_iso_string:
  assumes "valid_time t"
  shows "date_parse e (iso_string t) = Some t"
  using assms parse_iso_string [OF valid_time_year [OF assms]]
  by (simp add: date_parse_def iso_date_not_Nil TimeClip_valid)

lemma toGscDate_parsed: "date_parse e s = Some t \<Longrightarrow> toGscDate e (Some s) = iso_date (Day t)"
  using date_parse_valid(3) [of e s t]
  by (simp add: toGscDate_def split_T0_def date_part)


lemma toGscDate_empty: "toGscDate e None = []" "toGscDate e (Some []) = []"
  by (simp_all add: toGscDate_def truthy_def)

lemma toGscDate_iso_string: "valid_time t \<Longrightarrow> toGscDate e (Some (iso_string t)) = iso_date (Day t)"
  by (rule toGscDate_parsed) (rule date_parse_iso_string)

lemma gsc_of_clip:
  "map_sum id (\<lambda>s. toGscDate e (Some s)) (toISOString (TimeClip x))
    = (if valid_time x then Inr (iso_date (Day x)) else Inl (RangeError ''Invalid time value''))"
  by (simp add: TimeClip_valid toISOString_def toGscDate_iso_string)

lemma local_civil:
  "MakeDate (MakeDay (YearFromDay (Day lt)) (MonthFromDay (Day lt)) (DateFromDay (Day lt) + k))
     (TimeWithinDay lt) = lt + k * msPerDay"
  unfolding MakeDay_civil
  by (simp add: MakeDate_def Day_def TimeWithinDay_def algebra_simps)

lemma shiftDays_eq:
  assumes "date_parse e s = Some t"
  shows "shiftDays e s (Some k) =
    (if valid_time (UTC e (LocalTime e t + k * msPerDay))
     then Inr (iso_date (Day (UTC e (LocalTime e t + k * msPerDay))))
     else Inl (RangeError ''Invalid time value''))"
  unfolding shiftDays_def Let_def assms
  by (simp add: getDate_def setDate_def Let_def local_civil gsc_of_clip)

lemma shiftDays_invalid:
  "date_parse e s = None \<Longrightarrow> shiftDays e s k = Inl (RangeError ''Invalid time value'')"
  by (simp add: shiftDays_def getDate_def setDate_def toISOString_def)

lemma shiftYears_eq:
  assumes "date_parse e s = Some t"
  shows "shiftYears e s k =
    (let lt = LocalTime e t;
         x = UTC e (MakeDate (MakeDay (YearFromDay (Day lt) + k) (MonthFromDay (Day lt))
                                (DateFromDay (Day lt))) (TimeWithinDay lt))
     in if valid_time x then Inr (iso_date (Day x)) else Inl (RangeError ''Invalid time value''))"
  unfolding shiftYears_def Let_def assms
  by (simp add: getFullYear_def setFullYear_def Let_def gsc_of_clip)

lemma shiftYears_invalid:
  "date_parse e s = None \<Longrightarrow> shiftYears e s k = Inl (RangeError ''Invalid time value'')"
  by (simp add: shiftYears_def getFullYear_def setFullYear_def toISOString_def)

lemma daysInclusive_eq:
  assumes "date_parse e a = Some ta" "date_parse e b = Some tb"
  shows "daysInclusive e a b =
    (if valid_time (local_midnight_utc e tb) \<and> valid_time (local_midnight_utc e ta)
     then Some ((local_midnight_utc e tb - local_midnight_utc e ta) div msPerDay + 1)
     else None)"
  unfolding daysInclusive_def Let_def assms
  by (simp add: getFullYear_def getMonth_def getDate_def Date_UTC_def TimeClip_valid
        local_midnight_utc_def Let_def)

lemmas cal_defs = YearFromDay_def DayFromYear_def MonthFromDay_def DateFromDay_def DayWithinYear_def
  leapDays_def InLeapYear_def monthStart_def MakeDay_def MakeDate_def MakeTime_def Day_def
  TimeWithinDay_def msPerDay_def MakeFullYear_def valid_time_def

lemmas fmt_defs = iso_date_def year_str_def pad2_def pad4_def pad6_def digit_def

lemmas parse_defs = parse_iso_def parse_year_def parse_month_day_def parse_time_def digit_val_def

lemma parse_20240301: "date_parse e ''2024-03-01'' = Some 1709251200000"
  by (simp add: date_parse_def parse_defs cal_defs TimeClip_valid)

lemma parse_20240310: "date_parse e ''2024-03-10'' = Some 1710028800000"
  by (simp add: date_parse_def parse_defs cal_defs TimeClip_valid)

lemma fixed_host_time:
  "LocalTime (fixed_host n c) t = t + c" "UTC (fixed_host n c) t = t - c"
  by (simp_all add: LocalTime_def UTC_def fixed_host_def)

lemma shiftYears_bogota_start:
  "shiftYears (fixed_host 0 (- 18000000)) ''2024-03-01'' (- 1) = Inr ''2023-03-02''"
  unfolding shiftYears_eq [OF parse_20240301] fixed_host_time Let_def
  by (simp add: cal_defs fmt_defs)

lemma shiftYears_bogota_end:
  "shiftYears (fixed_host 0 (- 18000000)) ''2024-03-10'' (- 1) = Inr ''2023-03-10''"
  unfolding shiftYears_eq [OF parse_20240310] fixed_host_time Let_def
  by (simp add: cal_defs fmt_defs)

text \<open>
  C7 says that the previous-year policy gives each date of \<open>rangeA\<close> with the year
  lowered by one, month and day kept, 2023-03-01..2023-03-10 for 2024-03-01..2024-03-10.
  The code does not do so on a host west of Greenwich. \<^verbatim>\<open>shiftYears\<close> parses the date as
  a UTC midnight and moves the year in local time: at UTC-5 the first of March 2024 is
  still 29 February locally, a day 2023 does not have, and the previous year starts on
  2023-03-02.
\<close>

theorem prevYear_utc_minus_5:
  "buildCompareRanges (fixed_host 0 (- 18000000)) ''prevYear''
      \<lparr>startDate = ''2024-03-01'', endDate = ''2024-03-10''\<rparr> None
    = Inr (\<lparr>startDate = ''2024-03-01'', endDate = ''2024-03-10''\<rparr>,
           \<lparr>startDate = ''2023-03-02'', endDate = ''2023-03-10''\<rparr>)"
  by (simp add: buildCompareRanges_def shiftYears_bogota_start shiftYears_bogota_end)

lemma new_york_time:
  "LocalTime (new_york_2024 n) t =
     t + (if 1710054000000 \<le> t \<and> t < 1730613600000 then - 14400000 else - 18000000)"
  "UTC (new_york_2024 n) t =
     t - (if 1710039600000 \<le> t \<and> t < 1730599200000 then - 14400000 else - 18000000)"
  by (simp_all add: LocalTime_def UTC_def new_york_2024_def)

lemma parse_20241110: "date_parse e ''2024-11-10'' = Some 1731196800000"
  by (simp add: date_parse_def parse_defs cal_defs TimeClip_valid)

lemma parse_20241119: "date_parse e ''2024-11-19'' = Some 1731974400000"
  by (simp add: date_parse_def parse_defs cal_defs TimeClip_valid)

lemma parse_20241109: "date_parse e ''2024-11-09'' = Some 1731110400000"
  by (simp add: date_parse_def parse_defs cal_defs TimeClip_valid)

lemma daysInclusive_new_york:
  "daysInclusive (new_york_2024 0) ''2024-11-10'' ''2024-11-19'' = Some 10"
  unfolding daysInclusive_eq [OF parse_20241110 parse_20241119] local_midnight_utc_def
    new_york_time Let_def
  by (simp add: cal_defs)

lemma shiftDays_new_york_end:
  "shiftDays (new_york_2024 0) ''2024-11-10'' (Some (- 1)) = Inr ''2024-11-09''"
  unfolding shiftDays_eq [OF parse_20241110] new_york_time
  by (simp add: cal_defs fmt_defs)

lemma shiftDays_new_york_start:
  "shiftDays (new_york_2024 0) ''2024-11-09'' (Some (- 9)) = Inr ''2024-10-30''"
  unfolding shiftDays_eq [OF parse_20241109] new_york_time
  by (simp add: cal_defs fmt_defs)

text \<open>
  C4 says that the previous-period policy gives the range of the same inclusive length
  that ends the day before \<open>rangeA\<close> starts. The code does not do so where the zone of
  the host changes its offset. \<^verbatim>\<open>shiftDays\<close> parses the date as a UTC midnight and moves
  the day in local time: in New York the 10 days 2024-11-10..2024-11-19 get the 11 days
  2024-10-30..2024-11-09 as their previous period, because the shift crosses the end of
  daylight saving time on 3 November.
\<close>

theorem prevPeriod_new_york:
  "buildCompareRanges (new_york_2024 0) ''prevPeriod''
      \<lparr>startDate = ''2024-11-10'', endDate = ''2024-11-19''\<rparr> None
    = Inr (\<lparr>startDate = ''2024-11-10'', endDate = ''2024-11-19''\<rparr>,
           \<lparr>startDate = ''2024-10-30'', endDate = ''2024-11-09''\<rparr>)"
  by (simp add: buildCompareRanges_def daysInclusive_new_york shiftDays_new_york_end
        shiftDays_new_york_start)




lemma truthy_simps: "truthy None = False" "truthy (Some s) = (s \<noteq> [])"
  by (simp_all add: truthy_def)















lemma MakeDay_civil_minus:
  "MakeDay (YearFromDay d) (MonthFromDay d) (DateFromDay d - k) = d - k"
  using MakeDay_civil [of d "- k"] by simp

lemma preset_eq:
  assumes "(if truthy customEnd then date_parse e (the customEnd) else date_now e) = Some t"
    and "mode \<noteq> ''custom''"
  shows "rangeFromPreset e mode customStart customEnd =
    (if valid_time (UTC e (MakeDate (preset_start mode (Day (LocalTime e t)))
                             (TimeWithinDay (LocalTime e t))))
     then Inr \<lparr>startDate = iso_date (Day (UTC e (MakeDate (preset_start mode (Day (LocalTime e t)))
                                                   (TimeWithinDay (LocalTime e t))))),
               endDate = iso_date (Day t)\<rparr>
     else Inl (RangeError ''Invalid time value''))"
proof -
  have v: "valid_time t"
    using assms(1) by (auto simp add: date_now_def TimeClip_valid date_parse_valid split: if_splits)
  have en: "toISOString (Some t) = Inr (iso_string t)"
    by (simp add: toISOString_def)
  let ?lt = "LocalTime e t"
  let ?x = "UTC e (MakeDate (preset_start mode (Day ?lt)) (TimeWithinDay ?lt))"
  have s: "(if mode = ''last7d'' then setDate e (Some t) (map_option (\<lambda>n. n - 7) (getDate e (Some t)))
        else if mode = ''last28d'' then setDate e (Some t) (map_option (\<lambda>n. n - 28) (getDate e (Some t)))
        else if mode = ''last3mo'' then setMonth e (Some t) (map_option (\<lambda>n. n - 3) (getMonth e (Some t)))
        else if mode = ''last12mo'' then setMonth e (Some t) (map_option (\<lambda>n. n - 12) (getMonth e (Some t)))
        else setDate e (Some t) (map_option (\<lambda>n. n - 28) (getDate e (Some t))))
      = TimeClip ?x"
    by (simp add: setDate_def setMonth_def getDate_def getMonth_def Let_def preset_start_def
          months_back_def MakeDay_civil_minus)
  show ?thesis
    unfolding rangeFromPreset_def assms(1) Let_def s
    using assms(2) v
    by (simp add: TimeClip_valid toISOString_def toGscDate_iso_string)
qed

lemma Day_MakeDate: "0 \<le> w \<Longrightarrow> w < msPerDay \<Longrightarrow> Day (MakeDate n w) = n"
  by (simp add: Day_def MakeDate_def msPerDay_def div_pos_pos_trivial)

lemma valid_MakeDate:
  assumes "- 99999999 \<le> n" "n \<le> 99999999" "0 \<le> w" "w < 86400000"
  shows "valid_time (MakeDate n w)"
  using assms by (simp add: valid_time_def MakeDate_def msPerDay_def)

lemma monthStart_bounds:
  assumes "0 \<le> m" "m \<le> 11"
  shows "0 \<le> monthStart y m" "monthStart y m \<le> 335"
  using month_cases [OF assms] leapDays_cases [of y]
  by (elim disjE; simp add: monthStart_def; linarith)+

lemma DayFromYear_values:
  "DayFromYear (- 1) = - 719893" "DayFromYear 0 = - 719528" "DayFromYear 9999 = 2932532"
  "DayFromYear 10000 = 2932897"
  by (simp_all add: DayFromYear_def)

lemma year_day_bounds:
  assumes "0 \<le> YearFromDay n" "YearFromDay n \<le> 9999"
  shows "- 719528 \<le> n" "n < 2932897"
proof -
  have "DayFromYear 0 \<le> DayFromYear (YearFromDay n)"
    by (rule DayFromYear_mono) (rule assms)
  with YearFromDay_bounds(1) [of n] show "- 719528 \<le> n"
    by (simp add: DayFromYear_values)
  have "DayFromYear (YearFromDay n + 1) \<le> DayFromYear 10000"
    by (rule DayFromYear_mono) (use assms in simp)
  with YearFromDay_bounds(2) [of n] show "n < 2932897"
    by (simp add: DayFromYear_values)
qed

lemma months_back_eq:
  "months_back k n =
     DayFromYear (YearFromDay n + (MonthFromDay n - k) div 12)
      + monthStart (YearFromDay n + (MonthFromDay n - k) div 12) ((MonthFromDay n - k) mod 12)
      + DateFromDay n - 1"
  by (simp add: months_back_def MakeDay_def)

lemma months_back_bounds:
  assumes y: "0 \<le> YearFromDay n" "YearFromDay n \<le> 9999" and k: "0 \<le> k" "k \<le> 12"
  shows "- 719893 \<le> months_back k n" "months_back k n \<le> 2932897"
proof -
  define q where "q = (MonthFromDay n - k) div 12"
  define r where "r = (MonthFromDay n - k) mod 12"
  have "(- 12) div 12 \<le> q" "q \<le> 11 div 12"
    unfolding q_def by (rule zdiv_mono1; use MonthFromDay_range [of n] k in simp)+
  hence q: "- 1 \<le> q" "q \<le> 0"
    by simp_all
  have r: "0 \<le> r" "r \<le> 11"
    unfolding r_def using pos_mod_bound [of 12 "MonthFromDay n - k"] by simp_all
  have lo: "DayFromYear (- 1) \<le> DayFromYear (YearFromDay n + q)"
    by (rule DayFromYear_mono) (use y q in simp)
  have hi: "DayFromYear (YearFromDay n + q) \<le> DayFromYear 9999"
    by (rule DayFromYear_mono) (use y q in simp)
  have e: "months_back k n = DayFromYear (YearFromDay n + q) + monthStart (YearFromDay n + q) r
             + DateFromDay n - 1"
    by (simp add: months_back_eq q_def r_def)
  show "- 719893 \<le> months_back k n" "months_back k n \<le> 2932897"
    unfolding e
    using lo hi monthStart_bounds [OF r, of "YearFromDay n + q"] DateFromDay_range [of n]
    by (simp_all add: DayFromYear_values)
qed

lemma preset_start_bounds:
  assumes "0 \<le> YearFromDay n" "YearFromDay n \<le> 9999"
  shows "- 99999999 \<le> preset_start mode n" "preset_start mode n \<le> 99999999"
  using year_day_bounds [OF assms] months_back_bounds [OF assms, of 3]
    months_back_bounds [OF assms, of 12]
  by (simp_all add: preset_start_def)

lemma months_back_civil:
  assumes "DateFromDay n \<le> DaysInMonth (YearFromDay n + (MonthFromDay n - k) div 12)
                             ((MonthFromDay n - k) mod 12)"
  shows "YearFromDay (months_back k n) = YearFromDay n + (MonthFromDay n - k) div 12"
    and "MonthFromDay (months_back k n) = (MonthFromDay n - k) mod 12"
    and "DateFromDay (months_back k n) = DateFromDay n"
proof -
  let ?y = "YearFromDay n + (MonthFromDay n - k) div 12"
  let ?m = "(MonthFromDay n - k) mod 12"
  have m: "0 \<le> ?m" "?m \<le> 11"
    using pos_mod_bound [of 12 "MonthFromDay n - k"] by simp_all
  have e: "months_back k n = MakeDay ?y ?m (DateFromDay n)"
    using m by (simp add: months_back_eq MakeDay_def)
  note c = civil_of_MakeDay [OF m DateFromDay_range(1) [of n] assms]
  show "YearFromDay (months_back k n) = ?y" "MonthFromDay (months_back k n) = ?m"
    "DateFromDay (months_back k n) = DateFromDay n"
    unfolding e by (rule c)+
qed

lemma utc_zone:
  assumes "\<forall>t u. LocalTZA e t u = 0"
  shows "LocalTime e t = t" "UTC e t = t"
  using assms by (simp_all add: LocalTime_def UTC_def)

lemma preset_utc_eq:
  assumes "\<forall>t u. LocalTZA e t u = 0"
    and "(if truthy customEnd then date_parse e (the customEnd) else date_now e) = Some t"
    and "0 \<le> YearFromDay (Day t)" and "YearFromDay (Day t) \<le> 9999"
    and "mode \<noteq> ''custom''"
  shows "rangeFromPreset e mode customStart customEnd
           = Inr \<lparr>startDate = iso_date (preset_start mode (Day t)), endDate = iso_date (Day t)\<rparr>"
proof -
  note w = TimeWithinDay_range [of t]
  have v: "valid_time (MakeDate (preset_start mode (Day t)) (TimeWithinDay t))"
    by (rule valid_MakeDate [OF preset_start_bounds [OF assms(3,4)] w])
  have d: "Day (MakeDate (preset_start mode (Day t)) (TimeWithinDay t)) = preset_start mode (Day t)"
    by (rule Day_MakeDate) (use w in \<open>simp_all add: msPerDay_def\<close>)
  show ?thesis
    unfolding preset_eq [OF assms(2,5)] utc_zone [OF assms(1)] d using v by simp
qed

text \<open>
  C6, as amended. On a host whose local time is UTC, for every mode other than
  \<open>custom\<close> and a today in a four-digit year: \<open>endDate\<close> is today, \<open>startDate\<close> is
  today minus 7 or 28 days (28 for an unknown mode), or, for the month presets, the day
  \<open>months_back 3\<close> or \<open>months_back 12\<close> of today. That day has the year and month 3
  or 12 calendar months before today's, the year rolled over, and today's day of the
  month whenever the target month has such a day.
\<close>

theorem preset_range_on_utc_host:
  assumes "\<forall>t u. LocalTZA e t u = 0"
    and "(if truthy customEnd then date_parse e (the customEnd) else date_now e) = Some t"
    and "0 \<le> YearFromDay (Day t)" and "YearFromDay (Day t) \<le> 9999"
    and "mode \<noteq> ''custom''"
  shows "rangeFromPreset e mode customStart customEnd
           = Inr \<lparr>startDate = iso_date (preset_start mode (Day t)), endDate = iso_date (Day t)\<rparr>
       \<and> (\<forall>k. DateFromDay (Day t) \<le> DaysInMonth (YearFromDay (Day t) + (MonthFromDay (Day t) - k) div 12)
                                               ((MonthFromDay (Day t) - k) mod 12) \<longrightarrow>
              YearFromDay (months_back k (Day t)) = YearFromDay (Day t) + (MonthFromDay (Day t) - k) div 12
            \<and> MonthFromDay (months_back k (Day t)) = (MonthFromDay (Day t) - k) mod 12
            \<and> DateFromDay (months_back k (Day t)) = DateFromDay (Day t))"
  using preset_utc_eq [OF assms] months_back_civil [of "Day t"] by blast

lemma utc_host_simps:
  "now (utc_host n) = n" "LocalTZA (utc_host n) t u = 0" "date_now (utc_host n) = TimeClip n"
  by (simp_all add: utc_host_def date_now_def)

lemma civil_20240531:
  "Day 1717158896000 = 19874" "YearFromDay 19874 = 2024" "MonthFromDay 19874 = 4"
  "DateFromDay 19874 = 31"
  by (simp_all add: cal_defs)

lemma civil_20240310:
  "Day 1710074096000 = 19792" "YearFromDay 19792 = 2024" "MonthFromDay 19792 = 2"
  "DateFromDay 19792 = 10"
  by (simp_all add: cal_defs)

lemma civil_20240115:
  "Day 1705322096000 = 19737" "YearFromDay 19737 = 2024" "MonthFromDay 19737 = 0"
  "DateFromDay 19737 = 15"
  by (simp_all add: cal_defs)

lemma months_back_20240531: "months_back 3 19874 = 19784"
  by (simp add: months_back_def civil_20240531) (simp add: cal_defs)

lemma months_back_20240115: "months_back 3 19737 = 19645"
  by (simp add: months_back_def civil_20240115) (simp add: cal_defs)

lemma iso_dates:
  "iso_date 19784 = ''2024-03-02''" "iso_date 19874 = ''2024-05-31''"
  "iso_date 19785 = ''2024-03-03''" "iso_date 19792 = ''2024-03-10''"
  "iso_date 19645 = ''2023-10-15''" "iso_date 19737 = ''2024-01-15''"
  by (simp_all add: cal_defs fmt_defs)

text \<open>
  C6, as stated, fails. On 2024-05-31 (month index 4) on a UTC host the preset
  \<open>last3mo\<close> starts on 2024-03-02, in March (index 2), not in February, the month three
  calendar months before May.
\<close>

theorem preset_last3mo_overflow_counterexample:
  "rangeFromPreset (utc_host 1717158896000) ''last3mo'' None None
     = Inr \<lparr>startDate = ''2024-03-02'', endDate = ''2024-05-31''\<rparr>
   \<and> MonthFromDay (Day 1717158896000) = 4
   \<and> MonthFromDay (months_back 3 (Day 1717158896000)) = 2"
proof -
  have "rangeFromPreset (utc_host 1717158896000) ''last3mo'' None None
     = Inr \<lparr>startDate = iso_date (preset_start ''last3mo'' (Day 1717158896000)),
            endDate = iso_date (Day 1717158896000)\<rparr>"
    by (rule preset_utc_eq)
      (simp_all add: utc_host_simps truthy_simps TimeClip_valid valid_time_def civil_20240531)
  moreover have "MonthFromDay 19784 = 2"
    by (simp add: cal_defs)
  ultimately show ?thesis
    by (simp add: preset_start_def civil_20240531 months_back_20240531 iso_dates)
qed

text \<open>
  The amended C6 on the two examples of the specification: \<open>last7d\<close> on 2024-03-10 and
  \<open>last3mo\<close> on 2024-01-15.
\<close>

theorem preset_range_on_utc_host_witness:
  "(\<forall>t u. LocalTZA (utc_host 1710074096000) t u = 0)
   \<and> (if truthy None then date_parse (utc_host 1710074096000) (the None)
       else date_now (utc_host 1710074096000)) = Some 1710074096000
   \<and> 0 \<le> YearFromDay (Day 1710074096000) \<and> YearFromDay (Day 1710074096000) \<le> 9999
   \<and> ''last7d'' \<noteq> ''custom''
   \<and> rangeFromPreset (utc_host 1710074096000) ''last7d'' None None
        = Inr \<lparr>startDate = ''2024-03-03'', endDate = ''2024-03-10''\<rparr>
   \<and> rangeFromPreset (utc_host 1705322096000) ''last3mo'' None None
        = Inr \<lparr>startDate = ''2023-10-15'', endDate = ''2024-01-15''\<rparr>
   \<and> DateFromDay (Day 1705322096000) \<le> DaysInMonth (2024 + (0 - 3) div 12) ((0 - 3) mod 12)
   \<and> YearFromDay (months_back 3 (Day 1705322096000)) = 2023
   \<and> MonthFromDay (months_back 3 (Day 1705322096000)) = 9
   \<and> DateFromDay (months_back 3 (Day 1705322096000)) = 15"
proof -
  have h1: "\<forall>t u. LocalTZA (utc_host 1710074096000) t u = 0"
    and h1': "\<forall>t u. LocalTZA (utc_host 1705322096000) t u = 0"
    by (simp_all add: utc_host_simps)
  have h2: "(if truthy None then date_parse (utc_host 1710074096000) (the None)
       else date_now (utc_host 1710074096000)) = Some 1710074096000"
    and h2': "(if truthy None then date_parse (utc_host 1705322096000) (the None)
       else date_now (utc_host 1705322096000)) = Some 1705322096000"
    by (simp_all add: utc_host_simps truthy_simps TimeClip_valid valid_time_def)
  have h3: "0 \<le> YearFromDay (Day 1710074096000)" "YearFromDay (Day 1710074096000) \<le> 9999"
    and h3': "0 \<le> YearFromDay (Day 1705322096000)" "YearFromDay (Day 1705322096000) \<le> 9999"
    by (simp_all add: civil_20240310 civil_20240115)
  have h4: "''last7d'' \<noteq> ''custom''" and h4': "''last3mo'' \<noteq> ''custom''"
    by simp_all
  have dim: "DateFromDay (Day 1705322096000) \<le> DaysInMonth (2024 + (0 - 3) div 12) ((0 - 3) mod 12)"
    by (simp add: civil_20240115 DaysInMonth_def)
  note A = preset_range_on_utc_host [OF h1 h2 h3 h4, of None]
  note B = preset_range_on_utc_host [OF h1' h2' h3' h4', of None]
  have a: "rangeFromPreset (utc_host 1710074096000) ''last7d'' None None
        = Inr \<lparr>startDate = ''2024-03-03'', endDate = ''2024-03-10''\<rparr>"
    using A [THEN conjunct1] by (simp add: preset_start_def civil_20240310 iso_dates)
  have b: "rangeFromPreset (utc_host 1705322096000) ''last3mo'' None None
        = Inr \<lparr>startDate = ''2023-10-15'', endDate = ''2024-01-15''\<rparr>"
    using B [THEN conjunct1]
    by (simp add: preset_start_def civil_20240115 months_back_20240115 iso_dates)
  have c: "YearFromDay (months_back 3 (Day 1705322096000)) = 2023
     \<and> MonthFromDay (months_back 3 (Day 1705322096000)) = 9
     \<and> DateFromDay (months_back 3 (Day 1705322096000)) = 15"
    using B [THEN conjunct2, rule_format, of 3] dim
    by (simp add: civil_20240115)
  show ?thesis
    using h1 h2 h3 a b c dim by simp
qed

section \<open>Row keys and the join\<close>

lemma has_sep_Cons: "\<not> has_sep (c # cs) \<Longrightarrow> \<not> has_sep cs"
  by (cases cs) auto

lemma ends_bar_Cons: "\<not> ends_bar (c # cs) \<Longrightarrow> \<not> ends_bar cs"
  by (auto simp add: ends_bar_def)

lemma sep_prefix_aux:
  assumes "''||'' @ r = y @ ''||'' @ r'" and "\<not> has_sep y" and "\<not> ends_bar y"
  shows "y = []"
proof (cases y)
  case Nil
  thus ?thesis .
next
  case (Cons c y')
  with assms(1) have c: "c = CHR ''|''" and rest: "CHR ''|'' # r = y' @ ''||'' @ r'"
    by auto
  show ?thesis
  proof (cases y')
    case Nil
    with Cons c assms(3) show ?thesis
      by (simp add: ends_bar_def)
  next
    case (Cons d y'')
    with rest have "d = CHR ''|''"
      by simp
    with c \<open>y = c # y'\<close> Cons assms(2) show ?thesis
      by simp
  qed
qed

lemma sep_prefix_unique:
  assumes "x @ ''||'' @ r = y @ ''||'' @ r'"
    and "\<not> has_sep x" "\<not> ends_bar x" "\<not> has_sep y" "\<not> ends_bar y"
  shows "x = y \<and> r = r'"
  using assms
proof (induction x arbitrary: y)
  case Nil
  from sep_prefix_aux [of r y r'] Nil have "y = []"
    by simp
  with Nil show ?case
    by simp
next
  case (Cons c x)
  show ?case
  proof (cases y)
    case Nil
    from sep_prefix_aux [of r' "c # x" r] Cons.prems Nil show ?thesis
      by simp
  next
    case (Cons d y')
    with Cons.prems(1) have cd: "c = d" and rest: "x @ ''||'' @ r = y' @ ''||'' @ r'"
      by auto
    from Cons.prems Cons have "x = y' \<and> r = r'"
      by (intro Cons.IH [OF rest]) (auto dest: has_sep_Cons ends_bar_Cons)
    with cd Cons show ?thesis
      by simp
  qed
qed

lemma js_join_inj:
  assumes "length ka = length kb"
    and "\<forall>v \<in> set ka \<union> set kb. \<not> has_sep v \<and> \<not> ends_bar v"
    and "js_join ''||'' ka = js_join ''||'' kb"
  shows "ka = kb"
  using assms
proof (induction ka kb rule: list_induct2)
  case Nil
  show ?case by simp
next
  case (Cons x xs y ys)
  show ?case
  proof (cases xs)
    case Nil
    with Cons show ?thesis
      by simp
  next
    case xs: (Cons x' xs')
    with Cons.hyps obtain y' ys' where ys: "ys = y' # ys'"
      by (cases ys) auto
    from Cons.prems(2) xs ys
    have "x @ ''||'' @ js_join ''||'' xs = y @ ''||'' @ js_join ''||'' ys"
      by simp
    from sep_prefix_unique [OF this] Cons.prems(1)
    have "x = y" and "js_join ''||'' xs = js_join ''||'' ys"
      by auto
    with Cons.IH Cons.prems(1) show ?thesis
      by auto
  qed
qed

lemma keys_keyed_row [simp]: "keys_or_empty (keyed_row ks c) = ks"
  by (simp add: keys_or_empty_def keyed_row_def)

lemma rowsToMap_single: "rowsToMap [r] dims = [(keyFromRow dims r, r)]"
  by (simp add: rowsToMap_def)

lemma compare_rows_collide:
  assumes "keyFromRow dims ra = keyFromRow dims rb"
  shows "length (compare_rows dims [ra] [rb] rangeA rangeB m) = 1"
  using assms by (simp add: compare_rows_def rowsToMap_single new_Set_def set_add_def Let_def)

text \<open>
  C10, as amended. The key of a row is its key tuple joined with \<open>||\<close>, whatever the
  dimensions argument. For two rows with key tuples of equal length in which no value
  holds \<open>||\<close> and no value ends in \<open>|\<close>, the keys are equal if and only if the tuples
  are. Without the precondition two different tuples can share a key, and the join then
  makes one record of them.
\<close>

theorem rowkey_injective:
  "keyFromRow dims r = js_join ''||'' (keys_or_empty r)
   \<and> keyFromRow dims r = keyFromRow dims' r
   \<and> (length (keys_or_empty ra) = length (keys_or_empty rb)
        \<and> (\<forall>v \<in> set (keys_or_empty ra) \<union> set (keys_or_empty rb). \<not> has_sep v \<and> \<not> ends_bar v)
       \<longrightarrow> (keyFromRow dims ra = keyFromRow dims rb \<longleftrightarrow> keys_or_empty ra = keys_or_empty rb))
   \<and> keyed_row [''a||b'', ''c''] 1 \<noteq> keyed_row [''a'', ''b||c''] 2
   \<and> keyFromRow dims (keyed_row [''a||b'', ''c''] 1) = keyFromRow dims (keyed_row [''a'', ''b||c''] 2)
   \<and> length (compare_rows dims [keyed_row [''a||b'', ''c''] 1] [keyed_row [''a'', ''b||c''] 2]
               rangeA rangeB m) = 1"
proof -
  have k: "keyFromRow dims (keyed_row [''a||b'', ''c''] 1) = keyFromRow dims (keyed_row [''a'', ''b||c''] 2)"
    by (simp add: keyFromRow_def)
  have "keyFromRow dims ra = keyFromRow dims rb \<longleftrightarrow> keys_or_empty ra = keys_or_empty rb"
    if "length (keys_or_empty ra) = length (keys_or_empty rb)"
      and "\<forall>v \<in> set (keys_or_empty ra) \<union> set (keys_or_empty rb). \<not> has_sep v \<and> \<not> ends_bar v"
    using js_join_inj [OF that] by (auto simp add: keyFromRow_def)
  thus ?thesis
    using k compare_rows_collide [OF k]
    by (simp add: keyFromRow_def) (simp add: keyed_row_def)
qed

text \<open>
  C10, as stated, fails: the tuples \<open>(a|, b)\<close> and \<open>(a, |b)\<close> have the same length, none
  of their values holds \<open>||\<close>, they differ, and both get the key \<open>a|||b\<close>; the join
  merges the two rows into one record.
\<close>

theorem rowkey_bar_collision_counterexample:
  "length [''a|'', ''b''] = length [''a'', ''|b'']
   \<and> \<not> has_sep ''a|'' \<and> \<not> has_sep ''b'' \<and> \<not> has_sep ''a'' \<and> \<not> has_sep ''|b''
   \<and> [''a|'', ''b''] \<noteq> [''a'', ''|b'']
   \<and> keyFromRow [''page'', ''query''] (keyed_row [''a|'', ''b''] 1)
       = keyFromRow [''page'', ''query''] (keyed_row [''a'', ''|b''] 2)
   \<and> length (compare_rows [''page'', ''query''] [keyed_row [''a|'', ''b''] 1] [keyed_row [''a'', ''|b''] 2]
        \<lparr>startDate = ''2024-03-01'', endDate = ''2024-03-10''\<rparr>
        \<lparr>startDate = ''2024-02-20'', endDate = ''2024-02-29''\<rparr> ''prevPeriod'') = 1"
proof -
  have k: "keyFromRow [''page'', ''query''] (keyed_row [''a|'', ''b''] 1)
       = keyFromRow [''page'', ''query''] (keyed_row [''a'', ''|b''] 2)"
    by (simp add: keyFromRow_def)
  show ?thesis
    using k compare_rows_collide [OF k] by simp
qed

text \<open>The amended C10 on the tuples \<open>(/a, usa)\<close> and \<open>(/b, usa)\<close>.\<close>

theorem rowkey_injective_witness:
  "length (keys_or_empty (keyed_row [''/a'', ''usa''] 1)) = length (keys_or_empty (keyed_row [''/b'', ''usa''] 2))
   \<and> \<not> has_sep ''/a'' \<and> \<not> ends_bar ''/a'' \<and> \<not> has_sep ''/b'' \<and> \<not> ends_bar ''/b''
   \<and> \<not> has_sep ''usa'' \<and> \<not> ends_bar ''usa''
   \<and> keys_or_empty (keyed_row [''/a'', ''usa''] 1) \<noteq> keys_or_empty (keyed_row [''/b'', ''usa''] 2)
   \<and> keyFromRow [''page'', ''country''] (keyed_row [''/a'', ''usa''] 1) = ''/a||usa''
   \<and> keyFromRow [''page'', ''country''] (keyed_row [''/a'', ''usa''] 1)
       \<noteq> keyFromRow [''page'', ''country''] (keyed_row [''/b'', ''usa''] 2)"
proof -
  let ?ra = "keyed_row [''/a'', ''usa''] 1" and ?rb = "keyed_row [''/b'', ''usa''] 2"
  note T = rowkey_injective [where dims = "[''page'', ''country'']" and r = ?ra and dims' = "[]"
      and ra = ?ra and rb = ?rb and rangeA = "\<lparr>startDate = [], endDate = []\<rparr>"
      and rangeB = "\<lparr>startDate = [], endDate = []\<rparr>" and m = "[]"]
  have h: "length (keys_or_empty ?ra) = length (keys_or_empty ?rb)
      \<and> (\<forall>v \<in> set (keys_or_empty ?ra) \<union> set (keys_or_empty ?rb). \<not> has_sep v \<and> \<not> ends_bar v)"
    by (simp add: ends_bar_def)
  have d: "keys_or_empty ?ra \<noteq> keys_or_empty ?rb"
    by simp
  from T h have "keyFromRow [''page'', ''country''] ?ra = keyFromRow [''page'', ''country''] ?rb
      \<longleftrightarrow> keys_or_empty ?ra = keys_or_empty ?rb"
    by blast
  with d have n: "keyFromRow [''page'', ''country''] ?ra \<noteq> keyFromRow [''page'', ''country''] ?rb"
    by simp
  from T have "keyFromRow [''page'', ''country''] ?ra = js_join ''||'' (keys_or_empty ?ra)"
    by blast
  hence k: "keyFromRow [''page'', ''country''] ?ra = ''/a||usa''"
    by simp
  from d n k show ?thesis
    by (simp add: ends_bar_def)
qed





















section \<open>Errors of page requests\<close>

lemma all_ok_simps [simp]:
  "all_ok []" "all_ok (xs @ ys) = (all_ok xs \<and> all_ok ys)" "all_ok [(rq, Inr x)]"
  "\<not> all_ok [(rq, Inl err)]"
  by (auto simp add: all_ok_def)

lemma aborted_single [simp]: "aborted err [(rq, Inl err)]"
  by (simp add: aborted_def)

lemma aborted_append: "all_ok xs \<Longrightarrow> aborted err ys \<Longrightarrow> aborted err (xs @ ys)"
  by (auto simp add: aborted_def butlast_append)

lemma aborted_not_ok: "aborted err tr \<Longrightarrow> \<not> all_ok tr"
  by (auto simp add: aborted_def all_ok_def) (metis last_in_set sum.distinct(1))

lemma aborted_entry:
  assumes "aborted err tr" and "(rq, Inl err') \<in> set tr"
  shows "err' = err"
proof -
  from assms(1) have ne: "tr \<noteq> []" and l: "snd (last tr) = Inl err" and b: "all_ok (butlast tr)"
    by (simp_all add: aborted_def)
  from ne have "tr = butlast tr @ [last tr]"
    by simp
  with assms(2) have "(rq, Inl err') \<in> set (butlast tr) \<or> (rq, Inl err') = last tr"
    by (metis Un_iff empty_iff insert_iff list.simps(15) set_append empty_set)
  thus ?thesis
  proof
    assume "(rq, Inl err') \<in> set (butlast tr)"
    with b show ?thesis
      by (auto simp add: all_ok_def)
  next
    assume "(rq, Inl err') = last tr"
    hence "snd (last tr) = Inl err'"
      by (metis snd_conv)
    with l show ?thesis
      by simp
  qed
qed

lemma fetch_loop_trace:
  "fetch_loop (recording remote) siteUrl b targetLimit per rows startRow (tr, s) = (r, (tr', s'))
    \<Longrightarrow> \<exists>new. tr' = tr @ new
          \<and> (case r of Inl err \<Rightarrow> aborted err new | Inr rs \<Rightarrow> all_ok new)"
proof (induction "nat (targetLimit - int (length rows))" arbitrary: rows startRow tr s
        rule: less_induct)
  case less
  let ?req = "\<lparr>req_site = siteUrl, req_body = b, req_rowLimit = per, req_startRow = startRow\<rparr>"
  show ?case
  proof (cases "int (length rows) < targetLimit")
    case False
    with less.prems show ?thesis
      by (auto simp add: fetch_loop.simps)
  next
    case lt: True
    obtain x s1 where rem: "remote s ?req = (x, s1)"
      by (cases "remote s ?req")
    have rec: "recording remote (tr, s) ?req = (x, (tr @ [(?req, x)], s1))"
      using rem by (rule recording_step)
    show ?thesis
    proof (cases x)
      case (Inl err)
      with less.prems lt rec show ?thesis
        by (auto simp add: fetch_loop.simps)
    next
      case (Inr resp)
      show ?thesis
      proof (cases "length (chunk_of resp) = 0 \<or> int (length (chunk_of resp)) < per
                     \<or> int (length (rows @ chunk_of resp)) \<ge> targetLimit")
        case True
        with less.prems lt rec Inr show ?thesis
          by (auto simp add: fetch_loop.simps split: if_splits)
      next
        case False
        with less.prems lt rec Inr
        have step: "fetch_loop (recording remote) siteUrl b targetLimit per (rows @ chunk_of resp)
                      (startRow + length (chunk_of resp)) (tr @ [(?req, x)], s1) = (r, (tr', s'))"
          by (simp add: fetch_loop.simps [of _ _ _ _ _ rows])
        from False have ne: "length (chunk_of resp) \<noteq> 0"
          by simp
        with lt have "nat (targetLimit - int (length (rows @ chunk_of resp)))
                       < nat (targetLimit - int (length rows))"
          by simp
        from less.hyps [OF this step] obtain new where
          n: "tr' = (tr @ [(?req, x)]) @ new"
            "(case r of Inl err \<Rightarrow> aborted err new | Inr rs \<Rightarrow> all_ok new)"
          by blast
        have "tr' = tr @ ((?req, x) # new)"
          using n(1) by simp
        moreover have "(case r of Inl err \<Rightarrow> aborted err ((?req, x) # new)
                         | Inr rs \<Rightarrow> all_ok ((?req, x) # new))"
          using n(2) Inr aborted_append [of "[(?req, x)]" _ new]
          by (cases r) (simp_all add: all_ok_def)
        ultimately show ?thesis
          by blast
      qed
    qed
  qed
qed

lemma fetchAllRows_trace:
  assumes "fetchAllRows (recording remote) siteUrl b targetLimit (tr, s) = (r, (tr', s'))"
  shows "\<exists>new. tr' = tr @ new
          \<and> (case r of Inl err \<Rightarrow> aborted err new | Inr rs \<Rightarrow> all_ok new)"
proof -
  obtain r0 where f: "fetch_loop (recording remote) siteUrl b targetLimit (perRequest b) [] 0 (tr, s)
      = (r0, (tr', s'))" and r: "r = map_sum id (\<lambda>rows. slice0 rows targetLimit) r0"
    using assms by (auto simp add: fetchAllRows_def split: prod.splits sum.splits)
  from fetch_loop_trace [OF f] r show ?thesis
    by (cases r0) auto
qed

lemma fetch_cases:
  obtains (failed) err new s' where
      "fetchAllRows (recording remote) siteUrl b targetLimit (tr, s) = (Inl err, (tr @ new, s'))"
      "aborted err new"
    | (fetched) rows new s' where
      "fetchAllRows (recording remote) siteUrl b targetLimit (tr, s) = (Inr rows, (tr @ new, s'))"
      "all_ok new"
proof -
  obtain r tr' s' where f: "fetchAllRows (recording remote) siteUrl b targetLimit (tr, s) = (r, (tr', s'))"
    by (metis prod.exhaust)
  from fetchAllRows_trace [OF f] obtain new where
    n: "tr' = tr @ new" "(case r of Inl err \<Rightarrow> aborted err new | Inr rs \<Rightarrow> all_ok new)"
    by blast
  show thesis
  proof (cases r)
    case (Inl err)
    with f n show thesis
      by (intro failed [of err new s']) simp_all
  next
    case (Inr rows)
    with f n show thesis
      by (intro fetched [of rows new s']) simp_all
  qed
qed

lemma try_body_trace:
  assumes "try_body e (recording remote) i it returnData (tr, s) = (res, rd, (tr', s'))"
  shows "\<exists>new. tr' = tr @ new
     \<and> (all_ok new \<or> (\<exists>err. res = Inl err \<and> rd = returnData \<and> aborted err new))"
proof -
  consider (page) "operation it = ''getPageInsights''"
    | (compare) "operation it \<noteq> ''getPageInsights''" "operation it = ''comparePageInsights''"
    | (other) "operation it \<noteq> ''getPageInsights''" "operation it \<noteq> ''comparePageInsights''"
    by blast
  thus ?thesis
  proof cases
    case other
    with assms have "tr' = tr @ []"
      by (simp add: try_body_def)
    thus ?thesis
      by (intro exI [of _ "[]"]) simp
  next
    case page
    show ?thesis
    proof (cases "validateSiteUrlOrThrow
               (if siteUrlMode it = ''manual'' then siteUrlManual it else siteUrlParam it)
               ''page insights''")
      case (Inl err)
      with assms page have "tr' = tr @ []"
        by (simp add: try_body_def)
      thus ?thesis
        by (intro exI [of _ "[]"]) simp
    next
      case site: (Inr site)
      show ?thesis
      proof (cases "rangeFromPreset e (dateRangeMode it) (Some (startDateParam it)) (Some (endDateParam it))")
        case (Inl err)
        with assms page site have "tr' = tr @ []"
          by (simp add: try_body_def)
        thus ?thesis
          by (intro exI [of _ "[]"]) simp
      next
        case range: (Inr r)
        let ?b = "\<lparr>dimensionFilterGroups = groups_field (filterGroups it),
                          body_startDate = startDate r, body_endDate = endDate r,
                          dimensions = dimensionsParam it,
                          rowLimit = Some (max 1 (min (rowLimitParam it) 25000)),
                          searchType = searchTypeParam it\<rparr>"
        show ?thesis
        proof (cases rule: fetch_cases [of remote site ?b "rowLimitParam it" tr s])
          case (failed err new s1)
          with assms page site range have "res = Inl err" "rd = returnData" "tr' = tr @ new"
            by (simp_all add: try_body_def)
          with failed(2) show ?thesis
            by blast
        next
          case (fetched rows new s1)
          with assms page site range have "tr' = tr @ new"
            by (simp add: try_body_def)
          with fetched(2) show ?thesis
            by blast
        qed
      qed
    qed
  next
    case compare
    let ?mode = "non_empty (compareModeParam it) ''prevPeriod''"
    show ?thesis
    proof (cases "validateSiteUrlOrThrow
               (if non_empty (siteUrlModeCompare it) ''list'' = ''manual''
                then siteUrlCompareManual it else siteUrlCompare it)
               ''comparison''")
      case (Inl err)
      with assms compare have "tr' = tr @ []"
        by (simp add: try_body_def)
      thus ?thesis
        by (intro exI [of _ "[]"]) simp
    next
      case site: (Inr site)
      show ?thesis
      proof (cases "dimensionsCompare it = []")
        case True
        with assms compare site have "tr' = tr @ []"
          by (simp add: try_body_def)
        thus ?thesis
          by (intro exI [of _ "[]"]) simp
      next
        case dims: False
        show ?thesis
        proof (cases "rangeFromPreset e (non_empty (dateRangeModeA it) ''last28d'')
                      (Some (startDateA it)) (Some (endDateA it))")
          case (Inl err)
          with assms compare site dims have "tr' = tr @ []"
            by (simp add: try_body_def)
          thus ?thesis
            by (intro exI [of _ "[]"]) simp
        next
          case rangeA: (Inr rangeA)
          show ?thesis
          proof (cases "buildCompareRanges e ?mode rangeA
                           (if ?mode = ''custom''
                            then Some \<lparr>cb_mode = Some (non_empty (dateRangeModeB it) ''last28d''),
                                       cb_start = Some (startDateB it), cb_end = Some (endDateB it)\<rparr>
                            else None)")
            case (Inl err)
            with assms compare site dims rangeA have "tr' = tr @ []"
              by (simp add: try_body_def)
            thus ?thesis
              by (intro exI [of _ "[]"]) simp
          next
            case (Inr pr)
            then obtain ra rangeB where ranges: "buildCompareRanges e ?mode rangeA
                           (if ?mode = ''custom''
                            then Some \<lparr>cb_mode = Some (non_empty (dateRangeModeB it) ''last28d''),
                                       cb_start = Some (startDateB it), cb_end = Some (endDateB it)\<rparr>
                            else None) = Inr (ra, rangeB)"
              by (cases pr) simp
            let ?lim = "if rowLimitCompare it = 0 then 1000 else rowLimitCompare it"
            let ?bodyOf = "\<lambda>r. \<lparr>dimensionFilterGroups = groups_field (filterGroups it),
                                  body_startDate = startDate r, body_endDate = endDate r,
                                  dimensions = dimensionsCompare it, rowLimit = None,
                                  searchType = non_empty (searchTypeCompare it) ''web''\<rparr>"
            show ?thesis
            proof (cases rule: fetch_cases [of remote site "?bodyOf rangeA" ?lim tr s])
              case (failed err new s1)
              with assms compare site dims rangeA ranges
              have "res = Inl err" "rd = returnData" "tr' = tr @ new"
                by (simp_all add: try_body_def Let_def)
              with failed(2) show ?thesis
                by blast
            next
              case A: (fetched rowsA newA s1)
              show ?thesis
              proof (cases rule: fetch_cases [of remote site "?bodyOf rangeB" ?lim "tr @ newA" s1])
                case (failed err new s2)
                with assms compare site dims rangeA ranges A(1)
                have "res = Inl err" "rd = returnData" "tr' = tr @ (newA @ new)"
                  by (simp_all add: try_body_def Let_def)
                with aborted_append [OF A(2) failed(2)] show ?thesis
                  by blast
              next
                case (fetched rowsB new s2)
                with assms compare site dims rangeA ranges A(1)
                have "tr' = tr @ (newA @ new)"
                  by (simp add: try_body_def Let_def)
                moreover have "all_ok (newA @ new)"
                  using A(2) fetched(2) by simp
                ultimately show ?thesis
                  by blast
              qed
            qed
          qed
        qed
      qed
    qed
  qed
qed

text \<open>
  C8. If a page request made while an item is processed is rejected with an error, that
  request is the last one of the item and all requests before it were answered; nothing
  is added to the output for the rows those answers held; and the item ends with that
  error, thrown out of \<^verbatim>\<open>execute\<close>, or, when the item's \<open>continueOnFail\<close> parameter is
  set, recorded as one error entry after the output of the earlier items.
\<close>

theorem page_error_aborts_item:
  assumes "run_item e (recording remote) i it returnData ([], s) = (res, (tr, s'))"
    and "(rq, Inl err) \<in> set tr"
  shows "res = (if continueOnFail it
                then Inr (returnData @ [\<lparr>json = [(''error'', Str (error_message err))], pairedItem = i\<rparr>])
                else Inl err)
       \<and> snd (last tr) = Inl err
       \<and> (\<forall>p \<in> set (butlast tr). \<exists>rows. snd p = Inr rows)"
proof -
  obtain r0 rd where t: "try_body e (recording remote) i it returnData ([], s) = (r0, rd, (tr, s'))"
    using assms(1) by (auto simp add: run_item_def split: prod.splits sum.splits if_splits)
  from try_body_trace [OF t] assms(2)
  obtain err' where a: "r0 = Inl err'" "rd = returnData" "aborted err' tr"
    by (auto simp add: all_ok_def)
  from aborted_entry [OF a(3) assms(2)] have e: "err = err'" .
  from assms(1) t a(1,2) e
  have "res = (if continueOnFail it
                then Inr (returnData @ [\<lparr>json = [(''error'', Str (error_message err))], pairedItem = i\<rparr>])
                else Inl err)"
    by (auto simp add: run_item_def)
  with a(3) e show ?thesis
    by (simp add: aborted_def all_ok_def)
qed

lemma validate_sample:
  "validateSiteUrlOrThrow ''sc-domain:example.com'' context = Inr ''sc-domain:example.com''"
  by (simp add: validateSiteUrlOrThrow_def js_trim_def is_space_def starts_with_def Let_def)

lemma utc_host_time: "LocalTime (utc_host n) t = t" "UTC (utc_host n) t = t"
  by (simp_all add: LocalTime_def UTC_def utc_host_def)

lemma last7d_20240310:
  "rangeFromPreset (utc_host 1710074096000) ''last7d'' (Some []) (Some [])
     = Inr \<lparr>startDate = ''2024-03-03'', endDate = ''2024-03-10''\<rparr>"
proof -
  have "rangeFromPreset (utc_host 1710074096000) ''last7d'' (Some []) (Some [])
     = Inr \<lparr>startDate = iso_date (preset_start ''last7d'' (Day 1710074096000)),
            endDate = iso_date (Day 1710074096000)\<rparr>"
    by (rule preset_utc_eq)
      (simp_all add: utc_host_simps truthy_simps TimeClip_valid valid_time_def civil_20240310)
  thus ?thesis
    by (simp add: preset_start_def civil_20240310 iso_dates)
qed

lemma parse_20240303: "date_parse e ''2024-03-03'' = Some 1709424000000"
  by (simp add: date_parse_def parse_defs cal_defs TimeClip_valid)

lemma parse_20240302: "date_parse e ''2024-03-02'' = Some 1709337600000"
  by (simp add: date_parse_def parse_defs cal_defs TimeClip_valid)

lemma prevPeriod_20240303:
  "buildCompareRanges (utc_host 1710074096000) ''prevPeriod''
      \<lparr>startDate = ''2024-03-03'', endDate = ''2024-03-10''\<rparr> None
    = Inr (\<lparr>startDate = ''2024-03-03'', endDate = ''2024-03-10''\<rparr>,
           \<lparr>startDate = ''2024-02-24'', endDate = ''2024-03-02''\<rparr>)"
proof -
  have d: "daysInclusive (utc_host 1710074096000) ''2024-03-03'' ''2024-03-10'' = Some 8"
    unfolding daysInclusive_eq [OF parse_20240303 parse_20240310] local_midnight_utc_def
      utc_host_time Let_def
    by (simp add: cal_defs)
  have e: "shiftDays (utc_host 1710074096000) ''2024-03-03'' (Some (- 1)) = Inr ''2024-03-02''"
    unfolding shiftDays_eq [OF parse_20240303] utc_host_time
    by (simp add: cal_defs fmt_defs)
  have s: "shiftDays (utc_host 1710074096000) ''2024-03-02'' (Some (- 7)) = Inr ''2024-02-24''"
    unfolding shiftDays_eq [OF parse_20240302] utc_host_time
    by (simp add: cal_defs fmt_defs)
  show ?thesis
    by (simp add: buildCompareRanges_def d e s)
qed

lemma compare_item_fails_on_second_fetch:
  "run_item (utc_host 1710074096000) (recording flaky) 0 (sample_item ''comparePageInsights'' cof)
      [] ([], 0)
   = ((if cof then Inr [\<lparr>json = [(''error'', Str ''503'')], pairedItem = 0\<rparr>]
       else Inl (TransportError ''503'')),
      ([(sample_request ''2024-03-03'' ''2024-03-10'', Inr (Some [sample_row ''/a'' 10])),
        (sample_request ''2024-02-24'' ''2024-03-02'', Inl (TransportError ''503''))], 2))"
proof -
  let ?bA = "\<lparr>dimensionFilterGroups = None, body_startDate = ''2024-03-03'',
              body_endDate = ''2024-03-10'', dimensions = [''page''], rowLimit = None,
              searchType = ''web''\<rparr>"
  let ?bB = "\<lparr>dimensionFilterGroups = None, body_startDate = ''2024-02-24'',
              body_endDate = ''2024-03-02'', dimensions = [''page''], rowLimit = None,
              searchType = ''web''\<rparr>"
  have fa: "fetchAllRows (recording flaky) ''sc-domain:example.com'' ?bA 1000 ([], 0)
      = (Inr [sample_row ''/a'' 10],
         ([(sample_request ''2024-03-03'' ''2024-03-10'', Inr (Some [sample_row ''/a'' 10]))], Suc 0))"
    by (simp add: fetchAllRows_def fetch_loop.simps perRequest_def recording_def flaky_def
          chunk_of_def slice0_def sample_request_def)
  have fb: "fetchAllRows (recording flaky) ''sc-domain:example.com'' ?bB 1000
        ([(sample_request ''2024-03-03'' ''2024-03-10'', Inr (Some [sample_row ''/a'' 10]))], Suc 0)
      = (Inl (TransportError ''503''),
         ([(sample_request ''2024-03-03'' ''2024-03-10'', Inr (Some [sample_row ''/a'' 10])),
           (sample_request ''2024-02-24'' ''2024-03-02'', Inl (TransportError ''503''))], Suc (Suc 0)))"
    by (simp add: fetchAllRows_def fetch_loop.simps perRequest_def recording_def flaky_def
          chunk_of_def slice0_def sample_request_def)
  show ?thesis
    by (simp add: run_item_def try_body_def sample_item_def validate_sample non_empty_def
          last7d_20240310 prevPeriod_20240303 groups_field_def fa fb error_message_def Let_def
          numeral_2_eq_2)
qed

text \<open>
  C8 on a comparison whose first fetch is answered with one row and whose second fetch
  is rejected.
\<close>

theorem page_error_aborts_item_witness:
  "run_item (utc_host 1710074096000) (recording flaky) 0 (sample_item ''comparePageInsights'' True)
      [] ([], 0)
   = (Inr [\<lparr>json = [(''error'', Str ''503'')], pairedItem = 0\<rparr>],
      ([(sample_request ''2024-03-03'' ''2024-03-10'', Inr (Some [sample_row ''/a'' 10])),
        (sample_request ''2024-02-24'' ''2024-03-02'', Inl (TransportError ''503''))], 2))
   \<and> (sample_request ''2024-02-24'' ''2024-03-02'', Inl (TransportError ''503''))
       \<in> set [(sample_request ''2024-03-03'' ''2024-03-10'', Inr (Some [sample_row ''/a'' 10])),
              (sample_request ''2024-02-24'' ''2024-03-02'', Inl (TransportError ''503''))]
   \<and> Inr [\<lparr>json = [(''error'', Str ''503'')], pairedItem = 0\<rparr>]
       = (if continueOnFail (sample_item ''comparePageInsights'' True)
          then Inr ([] @ [\<lparr>json = [(''error'', Str (error_message (TransportError ''503'')))],
                            pairedItem = 0\<rparr>])
          else Inl (TransportError ''503''))"
proof -
  have r: "run_item (utc_host 1710074096000) (recording flaky) 0
      (sample_item ''comparePageInsights'' True) [] ([], 0)
   = (Inr [\<lparr>json = [(''error'', Str ''503'')], pairedItem = 0\<rparr>],
      ([(sample_request ''2024-03-03'' ''2024-03-10'', Inr (Some [sample_row ''/a'' 10])),
        (sample_request ''2024-02-24'' ''2024-03-02'', Inl (TransportError ''503''))], 2))"
    using compare_item_fails_on_second_fetch [of True] by simp
  have m: "(sample_request ''2024-02-24'' ''2024-03-02'', Inl (TransportError ''503''))
       \<in> set [(sample_request ''2024-03-03'' ''2024-03-10'', Inr (Some [sample_row ''/a'' 10])),
              (sample_request ''2024-02-24'' ''2024-03-02'', Inl (TransportError ''503''))]"
    by simp
  from page_error_aborts_item [OF r m] r m show ?thesis
    by blast
qed

section \<open>Comparison ranges on a host on UTC\<close>

text \<open>
  Where the local time of the host is UTC the local-time setters and the UTC formatting
  agree. The previous period of \<open>na..nb\<close> then ends the day before \<open>na\<close> and has as
  many days; the previous year of a day is the same month and day one year earlier,
  whenever that year has such a day. The years 0 to 99 are left out: \<^verbatim>\<open>Date.UTC\<close> reads
  them as 1900 to 1999.
\<close>

lemma valid_day:
  assumes "- 99999999 \<le> n" "n \<le> 99999999"
  shows "valid_time (n * msPerDay)"
  using valid_MakeDate [OF assms, of 0] by (simp add: MakeDate_def)

lemma date_parse_iso_date:
  assumes "- 99999999 \<le> n" "n \<le> 99999999"
  shows "date_parse e (iso_date n) = Some (n * msPerDay)"
proof -
  have "- 100000000 \<le> n" "n \<le> 100000000"
    using assms by simp_all
  from parse_iso_date [OF year_range [OF this]] valid_day [OF assms] show ?thesis
    by (simp add: date_parse_def iso_date_not_Nil TimeClip_valid)
qed

lemma Day_of_day: "Day (n * msPerDay) = n" "TimeWithinDay (n * msPerDay) = 0"
  by (simp_all add: Day_def TimeWithinDay_def msPerDay_def)

lemma shiftDays_utc:
  assumes "\<forall>t u. LocalTZA e t u = 0"
    and "- 99999999 \<le> n" "n \<le> 99999999" "- 99999999 \<le> n + k" "n + k \<le> 99999999"
  shows "shiftDays e (iso_date n) (Some k) = Inr (iso_date (n + k))"
proof -
  have "n * msPerDay + k * msPerDay = (n + k) * msPerDay"
    by (simp add: algebra_simps)
  thus ?thesis
    unfolding shiftDays_eq [OF date_parse_iso_date [OF assms(2,3)]] utc_zone [OF assms(1)]
    using valid_day [OF assms(4,5)] by (simp add: Day_of_day)
qed

lemma daysInclusive_utc:
  assumes "\<forall>t u. LocalTZA e t u = 0"
    and "- 99999999 \<le> na" "na \<le> 99999999" "- 99999999 \<le> nb" "nb \<le> 99999999"
    and "\<not> (0 \<le> YearFromDay na \<and> YearFromDay na \<le> 99)"
    and "\<not> (0 \<le> YearFromDay nb \<and> YearFromDay nb \<le> 99)"
  shows "daysInclusive e (iso_date na) (iso_date nb) = Some (nb - na + 1)"
proof -
  have m: "local_midnight_utc e (na * msPerDay) = na * msPerDay"
    "local_midnight_utc e (nb * msPerDay) = nb * msPerDay"
  proof -
    have "MakeFullYear (YearFromDay na) = YearFromDay na" "MakeFullYear (YearFromDay nb) = YearFromDay nb"
      using assms(6,7) by (auto simp add: MakeFullYear_def)
    thus "local_midnight_utc e (na * msPerDay) = na * msPerDay"
      "local_midnight_utc e (nb * msPerDay) = nb * msPerDay"
      by (simp_all add: local_midnight_utc_def utc_zone [OF assms(1)] Day_of_day
            MakeDay_civil0 MakeDate_def Let_def)
  qed
  have "(nb * msPerDay - na * msPerDay) div msPerDay = nb - na"
    by (simp add: msPerDay_def algebra_simps flip: right_diff_distrib)
  thus ?thesis
    unfolding daysInclusive_eq [OF date_parse_iso_date [OF assms(2,3)]
        date_parse_iso_date [OF assms(4,5)]] m
    using valid_day [OF assms(2,3)] valid_day [OF assms(4,5)] by simp
qed

lemma prevPeriod_on_utc_host:
  assumes "\<forall>t u. LocalTZA e t u = 0"
    and "100 \<le> YearFromDay na" "YearFromDay na \<le> 9999"
    and "100 \<le> YearFromDay nb" "YearFromDay nb \<le> 9999"
  shows "buildCompareRanges e ''prevPeriod'' \<lparr>startDate = iso_date na, endDate = iso_date nb\<rparr> cb
    = Inr (\<lparr>startDate = iso_date na, endDate = iso_date nb\<rparr>,
           \<lparr>startDate = iso_date (na - 1 - (nb - na)), endDate = iso_date (na - 1)\<rparr>)"
proof -
  have a: "- 719528 \<le> na" "na < 2932897"
    by (rule year_day_bounds; use assms in simp)+
  have b: "- 719528 \<le> nb" "nb < 2932897"
    by (rule year_day_bounds; use assms in simp)+
  have d: "daysInclusive e (iso_date na) (iso_date nb) = Some (nb - na + 1)"
    by (rule daysInclusive_utc [OF assms(1)]) (use a b assms in simp_all)
  have e1: "shiftDays e (iso_date na) (Some (- 1)) = Inr (iso_date (na + - 1))"
    by (rule shiftDays_utc [OF assms(1)]) (use a in simp_all)
  have e2: "shiftDays e (iso_date (na - 1)) (Some (- (nb - na))) = Inr (iso_date (na - 1 + - (nb - na)))"
    by (rule shiftDays_utc [OF assms(1)]) (use a b in simp_all)
  show ?thesis
    using d e1 e2 by (simp add: buildCompareRanges_def)
qed

lemma shiftYears_utc:
  assumes "\<forall>t u. LocalTZA e t u = 0"
    and "1 \<le> YearFromDay n" "YearFromDay n \<le> 9999"
  shows "shiftYears e (iso_date n) (- 1)
           = Inr (iso_date (MakeDay (YearFromDay n - 1) (MonthFromDay n) (DateFromDay n)))"
proof -
  have a: "- 719528 \<le> n" "n < 2932897"
    by (rule year_day_bounds; use assms in simp)+
  have p: "date_parse e (iso_date n) = Some (n * msPerDay)"
    by (rule date_parse_iso_date) (use a in simp_all)
  let ?d = "MakeDay (YearFromDay n - 1) (MonthFromDay n) (DateFromDay n)"
  have e: "?d = DayFromYear (YearFromDay n - 1) + monthStart (YearFromDay n - 1) (MonthFromDay n)
                 + DateFromDay n - 1"
    using MonthFromDay_range [of n] by (simp add: MakeDay_def)
  have "DayFromYear 0 \<le> DayFromYear (YearFromDay n - 1)"
    "DayFromYear (YearFromDay n - 1) \<le> DayFromYear 9999"
    by (rule DayFromYear_mono; use assms in simp)+
  hence "- 99999999 \<le> ?d" "?d \<le> 99999999"
    unfolding e
    using monthStart_bounds [OF MonthFromDay_range, of "YearFromDay n - 1" n] DateFromDay_range [of n]
    by (simp_all add: DayFromYear_values)
  from valid_day [OF this] show ?thesis
    unfolding shiftYears_eq [OF p] utc_zone [OF assms(1)] Let_def Day_of_day
    by (simp add: MakeDate_def Day_of_day)
qed

lemma prevYear_on_utc_host:
  assumes "\<forall>t u. LocalTZA e t u = 0"
    and "1 \<le> YearFromDay na" "YearFromDay na \<le> 9999"
    and "1 \<le> YearFromDay nb" "YearFromDay nb \<le> 9999"
  shows "buildCompareRanges e ''prevYear'' \<lparr>startDate = iso_date na, endDate = iso_date nb\<rparr> cb
    = Inr (\<lparr>startDate = iso_date na, endDate = iso_date nb\<rparr>,
           \<lparr>startDate = iso_date (MakeDay (YearFromDay na - 1) (MonthFromDay na) (DateFromDay na)),
            endDate = iso_date (MakeDay (YearFromDay nb - 1) (MonthFromDay nb) (DateFromDay nb))\<rparr>)"
  by (simp add: buildCompareRanges_def shiftYears_utc [OF assms(1,2,3)] shiftYears_utc [OF assms(1,4,5)])

lemma same_day_previous_year:
  assumes "DateFromDay n \<le> DaysInMonth (YearFromDay n - 1) (MonthFromDay n)"
  shows "YearFromDay (MakeDay (YearFromDay n - 1) (MonthFromDay n) (DateFromDay n)) = YearFromDay n - 1"
    and "MonthFromDay (MakeDay (YearFromDay n - 1) (MonthFromDay n) (DateFromDay n)) = MonthFromDay n"
    and "DateFromDay (MakeDay (YearFromDay n - 1) (MonthFromDay n) (DateFromDay n)) = DateFromDay n"
  by (rule civil_of_MakeDay [OF MonthFromDay_range DateFromDay_range(1) assms])+

text \<open>
  The years 0 to 99 on a host on UTC: the year 0 is a leap year, 1900 is not, and
  \<^verbatim>\<open>daysInclusive\<close> counts the three days 0000-02-28..0000-03-01 as two.
\<close>

lemma parse_00000228: "date_parse e ''0000-02-28'' = Some (- 62162208000000)"
  by (simp add: date_parse_def parse_defs cal_defs TimeClip_valid)

lemma parse_00000301: "date_parse e ''0000-03-01'' = Some (- 62162035200000)"
  by (simp add: date_parse_def parse_defs cal_defs TimeClip_valid)

lemma daysInclusive_year_zero:
  "daysInclusive (utc_host 0) ''0000-02-28'' ''0000-03-01'' = Some 2"
  unfolding daysInclusive_eq [OF parse_00000228 parse_00000301] local_midnight_utc_def
    utc_host_time Let_def
  by (simp add: cal_defs)


end
